theory Spec2Isabelle
  imports Main
begin

section \<open>Memory, errors and the fallback allocator\<close>

text \<open>
  An address is the null pointer, the first byte of the \<open>bytes\<close> array embedded in the
  \<open>placed_vector\<close> object that lives in object slot \<open>k\<close> (\<open>Inline k\<close>), or a block handed
  out by the fallback allocator (\<open>Heap b\<close>). The three regions are disjoint, as the memory
  of distinct objects is.
\<close>

datatype addr = Null | Inline nat | Heap nat

text \<open>
  \<open>BadAlloc\<close> is the \<open>std::bad_alloc\<close> of the fallback allocator. The other three are
  undefined behaviour of the C++ program, made a value: dereferencing a null
  \<open>place_manager\<close> pointer, handing the fallback allocator a block it did not allocate, and
  \<open>pop_back\<close> on an empty vector.
\<close>

datatype error = BadAlloc | NullDeref | BadFree | EmptyPop

text \<open>\<open>struct place_manager\<close>; the field \<open>size\<close> is \<open>size_place\<close> here.\<close>

record place_manager =
  is_used :: bool
  is_enabled :: bool
  p_bytes :: addr
  size_place :: nat

text \<open>
  The state of the program outside the vector objects themselves: the bookkeeping of the
  fallback allocator (\<open>std::allocator\<close>: the number of blocks handed out so far, the live
  blocks with their element counts, and the number of elements it can still provide), the
  contents of every storage block, and the bytes of the \<open>place_manager\<close> part of the
  \<open>m_place\<close> member of every object slot. \<open>places\<close> is total: memory that no constructor
  has initialised yet holds whatever was left there.
\<close>

record 'a world =
  next_block :: nat
  live :: "(nat \<times> nat) list"
  room :: nat
  mem :: "addr \<Rightarrow> 'a list"
  places :: "nat \<Rightarrow> place_manager"

definition place_manager_ctor :: "addr \<Rightarrow> nat \<Rightarrow> place_manager" where
  "place_manager_ctor p n =
     \<lparr>is_used = False, is_enabled = True, p_bytes = p, size_place = n\<rparr>"

text \<open>\<open>managed_place<T, N>()\<close> of the object in slot \<open>k\<close>: \<open>place_manager(&bytes[0], N)\<close>.\<close>

definition managed_place_ctor :: "nat \<Rightarrow> nat \<Rightarrow> place_manager" where
  "managed_place_ctor k N = place_manager_ctor (Inline k) N"

text \<open>\<open>std::allocator<T>::allocate(n)\<close>: a fresh block, or \<open>std::bad_alloc\<close>.\<close>

definition std_allocate :: "nat \<Rightarrow> 'a world \<Rightarrow> error + (addr \<times> 'a world)" where
  "std_allocate n w =
     (if room w < n then Inl BadAlloc
      else Inr (Heap (next_block w),
                w\<lparr>next_block := Suc (next_block w),
                  live := (next_block w, n) # live w,
                  room := room w - n\<rparr>))"

text \<open>
  \<open>std::allocator<T>::deallocate(p, n)\<close>: \<open>p\<close> must be a live block of \<open>n\<close> elements that
  \<open>allocate\<close> returned; anything else is undefined.
\<close>

definition std_deallocate :: "addr \<Rightarrow> nat \<Rightarrow> 'a world \<Rightarrow> error + 'a world" where
  "std_deallocate p n w =
     (case p of
        Heap b \<Rightarrow>
          if (b, n) \<in> set (live w)
          then Inr (w\<lparr>live := remove1 (b, n) (live w), room := room w + n\<rparr>)
          else Inl BadFree
      | _ \<Rightarrow> Inl BadFree)"

section \<open>\<open>allocator_in_place\<close>\<close>

text \<open>
  The allocator object: \<open>m_allocator\<close> is the stateless \<open>std::allocator\<close>, whose
  bookkeeping is in the world; \<open>m_place\<close> is the \<open>place_manager<T>*\<close>, \<open>None\<close> for
  \<open>nullptr\<close> and \<open>Some k\<close> for the address of the \<open>m_place\<close> member of object slot \<open>k\<close>.
\<close>

record allocator_in_place =
  m_place :: "nat option"

text \<open>\<open>allocator_in_place(const allocator_type& alloc = allocator_type(),
  place_manager<T>* place = nullptr)\<close>, with and without its second argument.\<close>

definition allocator_in_place_ctor :: "nat option \<Rightarrow> allocator_in_place" where
  "allocator_in_place_ctor place = \<lparr>m_place = place\<rparr>"

definition allocator_in_place_default :: allocator_in_place where
  "allocator_in_place_default = allocator_in_place_ctor None"

text \<open>The copy constructor keeps the pointer.\<close>

definition allocator_in_place_copy :: "allocator_in_place \<Rightarrow> allocator_in_place" where
  "allocator_in_place_copy alloc = \<lparr>m_place = m_place alloc\<rparr>"

text \<open>\<open>template <typename U> allocator_in_place(const allocator_in_place<U>& other)\<close>.\<close>

definition allocator_in_place_rebind :: "allocator_in_place \<Rightarrow> allocator_in_place" where
  "allocator_in_place_rebind other = \<lparr>m_place = None\<rparr>"

definition allocate :: "allocator_in_place \<Rightarrow> nat \<Rightarrow> 'a world \<Rightarrow> error + (addr \<times> 'a world)" where
  "allocate a n w =
     (case m_place a of
        None \<Rightarrow> std_allocate n w
      | Some k \<Rightarrow>
          if is_enabled (places w k) \<and> \<not> is_used (places w k) \<and> n \<le> size_place (places w k)
          then Inr (p_bytes (places w k),
                    w\<lparr>places := (places w)(k := (places w k)\<lparr>is_used := True\<rparr>)\<rparr>)
          else std_allocate n w)"

definition deallocate :: "allocator_in_place \<Rightarrow> addr \<Rightarrow> nat \<Rightarrow> 'a world \<Rightarrow> error + 'a world" where
  "deallocate a p n w =
     (case m_place a of
        None \<Rightarrow> Inl NullDeref
      | Some k \<Rightarrow>
          if p = p_bytes (places w k)
          then Inr (w\<lparr>places := (places w)(k := (places w k)\<lparr>is_used := False\<rparr>)\<rparr>)
          else std_deallocate p n w)"

definition alloc_is_in_place :: "allocator_in_place \<Rightarrow> 'a world \<Rightarrow> bool" where
  "alloc_is_in_place a w =
     (case m_place a of None \<Rightarrow> False | Some k \<Rightarrow> is_used (places w k))"

section \<open>\<open>std::vector<T, allocator_in_place<T, A>>\<close>, the base class\<close>

text \<open>
  The object: the storage pointer, the element count, the capacity and the allocator of the
  \<open>std::vector\<close> base, and \<open>self\<close>, the slot the object lives in (its \<open>this\<close>): the
  \<open>place_manager\<close> of its \<open>m_place\<close> member is \<open>places w self\<close> and its \<open>bytes\<close> array
  starts at \<open>Inline self\<close>. The elements are in the world's memory.
\<close>

record placed_vector =
  v_data :: addr
  v_size :: nat
  v_capacity :: nat
  v_alloc :: allocator_in_place
  self :: nat

definition elements :: "placed_vector \<Rightarrow> 'a world \<Rightarrow> 'a list" where
  "elements v w = take (v_size v) (mem w (v_data v))"

text \<open>
  The operations of the base class are the standard library's. They are modelled as the
  library implements them: a reallocation first allocates the new block, then moves the
  elements, then releases the old block (a null block is not released); \<open>reserve(n)\<close>
  reallocates to exactly \<open>n\<close> when \<open>n\<close> exceeds the capacity; \<open>shrink_to_fit\<close> reallocates to
  exactly the element count when that is below the capacity, and releases the block of an
  empty vector; the copy constructor allocates exactly the element count and nothing for an
  empty source. The growth policy of \<open>push_back\<close> differs between libraries: the new
  capacity is \<open>capacity + 1 + slack capacity\<close> for a parameter \<open>slack\<close>. \<open>max_size\<close> is not
  modelled; the only failure of the library is the fallback allocator's.
\<close>

definition reallocate :: "nat \<Rightarrow> placed_vector \<Rightarrow> 'a world \<Rightarrow> error + (placed_vector \<times> 'a world)" where
  "reallocate n v w =
     (case allocate (v_alloc v) n w of
        Inl e \<Rightarrow> Inl e
      | Inr (p, w1) \<Rightarrow>
          let w2 = w1\<lparr>mem := (mem w1)(p := take (v_size v) (mem w1 (v_data v)))\<rparr>;
              v' = v\<lparr>v_data := p, v_capacity := n\<rparr>
          in if v_data v = Null then Inr (v', w2)
             else (case deallocate (v_alloc v) (v_data v) (v_capacity v) w2 of
                     Inl e \<Rightarrow> Inl e
                   | Inr w3 \<Rightarrow> Inr (v', w3)))"

definition reserve :: "nat \<Rightarrow> placed_vector \<Rightarrow> 'a world \<Rightarrow> error + (placed_vector \<times> 'a world)" where
  "reserve n v w = (if v_capacity v < n then reallocate n v w else Inr (v, w))"

definition shrink_to_fit :: "placed_vector \<Rightarrow> 'a world \<Rightarrow> error + (placed_vector \<times> 'a world)" where
  "shrink_to_fit v w =
     (if v_size v = v_capacity v then Inr (v, w)
      else if v_size v = 0 then
        (if v_data v = Null then Inr (v\<lparr>v_capacity := 0\<rparr>, w)
         else (case deallocate (v_alloc v) (v_data v) (v_capacity v) w of
                 Inl e \<Rightarrow> Inl e
               | Inr w1 \<Rightarrow> Inr (v\<lparr>v_data := Null, v_capacity := 0\<rparr>, w1)))
      else reallocate (v_size v) v w)"

definition store_back :: "'a \<Rightarrow> placed_vector \<Rightarrow> 'a world \<Rightarrow> placed_vector \<times> 'a world" where
  "store_back x v w =
     (v\<lparr>v_size := Suc (v_size v)\<rparr>,
      w\<lparr>mem := (mem w)(v_data v := take (v_size v) (mem w (v_data v)) @ [x])\<rparr>)"

definition push_back ::
  "(nat \<Rightarrow> nat) \<Rightarrow> 'a \<Rightarrow> placed_vector \<Rightarrow> 'a world \<Rightarrow> error + (placed_vector \<times> 'a world)" where
  "push_back slack x v w =
     (if v_size v < v_capacity v then Inr (store_back x v w)
      else (case reallocate (Suc (v_capacity v) + slack (v_capacity v)) v w of
              Inl e \<Rightarrow> Inl e
            | Inr (v1, w1) \<Rightarrow> Inr (store_back x v1 w1)))"

definition pop_back :: "placed_vector \<Rightarrow> 'a world \<Rightarrow> error + (placed_vector \<times> 'a world)" where
  "pop_back v w =
     (if v_size v = 0 then Inl EmptyPop else Inr (v\<lparr>v_size := v_size v - 1\<rparr>, w))"

definition clear :: "placed_vector \<Rightarrow> 'a world \<Rightarrow> error + (placed_vector \<times> 'a world)" where
  "clear v w = Inr (v\<lparr>v_size := 0\<rparr>, w)"

text \<open>\<open>vector(const allocator_type&)\<close> for the object in slot \<open>k\<close>: no storage yet.\<close>

definition vector_ctor :: "allocator_in_place \<Rightarrow> nat \<Rightarrow> placed_vector" where
  "vector_ctor a k = \<lparr>v_data = Null, v_size = 0, v_capacity = 0, v_alloc = a, self = k\<rparr>"

text \<open>\<open>vector(const vector& other, const allocator_type&)\<close> for the object in slot \<open>k\<close>.\<close>

definition vector_copy_ctor ::
  "placed_vector \<Rightarrow> allocator_in_place \<Rightarrow> nat \<Rightarrow> 'a world \<Rightarrow> error + (placed_vector \<times> 'a world)" where
  "vector_copy_ctor other a k w =
     (if v_size other = 0 then Inr (vector_ctor a k, w)
      else (case allocate a (v_size other) w of
              Inl e \<Rightarrow> Inl e
            | Inr (p, w1) \<Rightarrow>
                Inr (\<lparr>v_data = p, v_size = v_size other, v_capacity = v_size other,
                      v_alloc = a, self = k\<rparr>,
                     w1\<lparr>mem := (mem w1)(p := elements other w1)\<rparr>)))"

text \<open>\<open>~vector()\<close>: the storage goes back to the allocator.\<close>

definition vector_dtor :: "placed_vector \<Rightarrow> 'a world \<Rightarrow> error + 'a world" where
  "vector_dtor v w =
     (if v_data v = Null then Inr w
      else deallocate (v_alloc v) (v_data v) (v_capacity v) w)"

section \<open>\<open>placed_vector<T, N, A>\<close>\<close>

text \<open>
  \<open>N\<close> is the template parameter and the first argument of every function that uses it.
  A constructor runs in C++'s order: the base class \<open>std::vector\<close> first, with the
  allocator bound to \<open>&m_place\<close>, then the member \<open>m_place\<close>, then the body.
\<close>

definition placed_vector_ctor :: "nat \<Rightarrow> nat \<Rightarrow> 'a world \<Rightarrow> error + (placed_vector \<times> 'a world)" where
  "placed_vector_ctor N k w =
     (let v0 = vector_ctor (allocator_in_place_ctor (Some k)) k;
          w1 = w\<lparr>places := (places w)(k := managed_place_ctor k N)\<rparr>
      in reserve N v0 w1)"

text \<open>
  The copy constructor has no body: the base class copies \<open>other\<close> through the new
  allocator, which reads the \<open>place_manager\<close> of slot \<open>k\<close> as it finds it, and the member
  \<open>m_place\<close> is constructed afterwards.
\<close>

definition placed_vector_copy_ctor ::
  "nat \<Rightarrow> nat \<Rightarrow> placed_vector \<Rightarrow> 'a world \<Rightarrow> error + (placed_vector \<times> 'a world)" where
  "placed_vector_copy_ctor N k other w =
     (case vector_copy_ctor other (allocator_in_place_ctor (Some k)) k w of
        Inl e \<Rightarrow> Inl e
      | Inr (v, w1) \<Rightarrow> Inr (v, w1\<lparr>places := (places w1)(k := managed_place_ctor k N)\<rparr>))"

text \<open>The implicit destructor: \<open>m_place\<close> is trivially destroyed, then the base class.\<close>

definition placed_vector_dtor :: "placed_vector \<Rightarrow> 'a world \<Rightarrow> error + 'a world" where
  "placed_vector_dtor v w = vector_dtor v w"

definition size_in_place :: "nat \<Rightarrow> placed_vector \<Rightarrow> nat" where
  "size_in_place N v = N"

text \<open>\<open>get_allocator()\<close> returns a copy of the vector's allocator.\<close>

definition get_allocator :: "placed_vector \<Rightarrow> allocator_in_place" where
  "get_allocator v = allocator_in_place_copy (v_alloc v)"

definition is_in_place :: "placed_vector \<Rightarrow> 'a world \<Rightarrow> bool" where
  "is_in_place v w = alloc_is_in_place (get_allocator v) w"

text \<open>\<open>m_place.is_enabled = b\<close>, a write to the object's own member.\<close>

definition set_enabled :: "bool \<Rightarrow> placed_vector \<Rightarrow> 'a world \<Rightarrow> 'a world" where
  "set_enabled b v w =
     w\<lparr>places := (places w)(self v := (places w (self v))\<lparr>is_enabled := b\<rparr>)\<rparr>"

text \<open>The statements of \<open>put_in_place\<close> after its two early returns, one function each.\<close>

definition pip_grow :: "nat \<Rightarrow> placed_vector \<Rightarrow> 'a world \<Rightarrow> error + (placed_vector \<times> 'a world)" where
  "pip_grow N v w = reserve (N + 1) v w"

definition pip_disable :: "nat \<Rightarrow> placed_vector \<Rightarrow> 'a world \<Rightarrow> 'a world" where
  "pip_disable N v w = (if v_size v \<noteq> N then set_enabled False v w else w)"

definition pip_shrink :: "nat \<Rightarrow> placed_vector \<Rightarrow> 'a world \<Rightarrow> error + (placed_vector \<times> 'a world)" where
  "pip_shrink N v w =
     (case pip_grow N v w of
        Inl e \<Rightarrow> Inl e
      | Inr (v1, w1) \<Rightarrow> shrink_to_fit v1 (pip_disable N v1 w1))"

definition pip_enable :: "nat \<Rightarrow> placed_vector \<Rightarrow> 'a world \<Rightarrow> error + (placed_vector \<times> 'a world)" where
  "pip_enable N v w =
     (case pip_shrink N v w of
        Inl e \<Rightarrow> Inl e
      | Inr (v2, w2) \<Rightarrow> Inr (v2, set_enabled True v2 w2))"

definition pip_reclaim :: "nat \<Rightarrow> placed_vector \<Rightarrow> 'a world \<Rightarrow> error + (placed_vector \<times> 'a world)" where
  "pip_reclaim N v w =
     (case pip_enable N v w of
        Inl e \<Rightarrow> Inl e
      | Inr (v3, w3) \<Rightarrow> reserve N v3 w3)"

definition put_in_place ::
  "nat \<Rightarrow> placed_vector \<Rightarrow> 'a world \<Rightarrow> error + (bool \<times> placed_vector \<times> 'a world)" where
  "put_in_place N v w =
     (if is_in_place v w \<and> v_capacity v = N then Inr (True, v, w)
      else if N < v_size v then Inr (False, v, w)
      else (case pip_reclaim N v w of
              Inl e \<Rightarrow> Inl e
            | Inr (v4, w4) \<Rightarrow>
                if is_in_place v4 w4 then Inr (True, v4, w4) else Inr (False, v4, w4)))"

section \<open>Sequences of operations\<close>

text \<open>Appending the elements of a list, one \<open>push_back\<close> each, stopping at the first error.\<close>

fun appends ::
  "(nat \<Rightarrow> nat) \<Rightarrow> 'a list \<Rightarrow> placed_vector \<Rightarrow> 'a world \<Rightarrow> error + (placed_vector \<times> 'a world)" where
  "appends slack [] v w = Inr (v, w)"
| "appends slack (x # xs) v w =
     (case push_back slack x v w of
        Inl e \<Rightarrow> Inl e
      | Inr (v1, w1) \<Rightarrow> appends slack xs v1 w1)"

text \<open>The operations a caller applies to one object after its construction.\<close>

datatype 'a operation =
  PushBack 'a | PopBack | Reserve nat | ShrinkToFit | Clear | PutInPlace

fun apply_operation ::
  "(nat \<Rightarrow> nat) \<Rightarrow> nat \<Rightarrow> 'a operation \<Rightarrow> placed_vector \<Rightarrow> 'a world \<Rightarrow>
   error + (placed_vector \<times> 'a world)" where
  "apply_operation slack N (PushBack x) v w = push_back slack x v w"
| "apply_operation slack N PopBack v w = pop_back v w"
| "apply_operation slack N (Reserve n) v w = reserve n v w"
| "apply_operation slack N ShrinkToFit v w = shrink_to_fit v w"
| "apply_operation slack N Clear v w = clear v w"
| "apply_operation slack N PutInPlace v w =
     (case put_in_place N v w of
        Inl e \<Rightarrow> Inl e
      | Inr (b, v1, w1) \<Rightarrow> Inr (v1, w1))"

fun run ::
  "(nat \<Rightarrow> nat) \<Rightarrow> nat \<Rightarrow> 'a operation list \<Rightarrow> placed_vector \<Rightarrow> 'a world \<Rightarrow>
   error + (placed_vector \<times> 'a world)" where
  "run slack N [] v w = Inr (v, w)"
| "run slack N (x # xs) v w =
     (case apply_operation slack N x v w of
        Inl e \<Rightarrow> Inl e
      | Inr (v1, w1) \<Rightarrow> run slack N xs v1 w1)"

section \<open>The invariant of a \<open>placed_vector\<close>\<close>

text \<open>
  What holds of an object between two calls: its allocator points at its own descriptor,
  the descriptor describes its own \<open>bytes\<close> array of \<open>N\<close> elements, the descriptor is marked
  used exactly when the storage is that array, the element count is within the capacity
  and within the block, and the storage is null with capacity zero, or the object's own
  array with a capacity of at most \<open>N\<close>, or a live block of the fallback allocator of
  exactly the capacity.
\<close>

definition vec_ok :: "nat \<Rightarrow> placed_vector \<Rightarrow> 'a world \<Rightarrow> bool" where
  "vec_ok N v w \<longleftrightarrow>
     m_place (v_alloc v) = Some (self v) \<and>
     p_bytes (places w (self v)) = Inline (self v) \<and>
     size_place (places w (self v)) = N \<and>
     (is_used (places w (self v)) \<longleftrightarrow> v_data v = Inline (self v)) \<and>
     v_size v \<le> v_capacity v \<and>
     v_size v \<le> length (mem w (v_data v)) \<and>
     (case v_data v of
        Null \<Rightarrow> v_capacity v = 0
      | Inline k \<Rightarrow> k = self v \<and> 0 < v_capacity v \<and> v_capacity v \<le> N
      | Heap b \<Rightarrow> 0 < v_capacity v \<and> (b, v_capacity v) \<in> set (live w))"

text \<open>Outside \<open>put_in_place\<close> the descriptor is enabled as well.\<close>

definition well_formed :: "nat \<Rightarrow> placed_vector \<Rightarrow> 'a world \<Rightarrow> bool" where
  "well_formed N v w \<longleftrightarrow> vec_ok N v w \<and> is_enabled (places w (self v))"

text \<open>
  A result that is no null dereference and, when it is a state, has kept the allocator \<open>a\<close>.
\<close>

definition safe :: "allocator_in_place \<Rightarrow> error + (placed_vector \<times> 'a world) \<Rightarrow> bool" where
  "safe a r = (case r of Inl e \<Rightarrow> e \<noteq> NullDeref | Inr (v, w) \<Rightarrow> v_alloc v = a)"

section \<open>Concrete states\<close>

text \<open>Memory in which nothing has been constructed, all bytes zero, and \<open>r\<close> elements of
  fallback storage.\<close>

definition blank_place :: place_manager where
  "blank_place = \<lparr>is_used = False, is_enabled = False, p_bytes = Null, size_place = 0\<rparr>"

definition blank_world :: "nat \<Rightarrow> 'a world" where
  "blank_world r =
     \<lparr>next_block = 0, live = [], room = r, mem = (\<lambda>_. []), places = (\<lambda>_. blank_place)\<rparr>"

text \<open>A \<open>placed_vector<nat, 4>\<close> in slot 0 that grew to five elements and lost two.\<close>

definition demo_heap_vector :: placed_vector where
  "demo_heap_vector =
     \<lparr>v_data = Heap 0, v_size = 3, v_capacity = 6, v_alloc = \<lparr>m_place = Some 0\<rparr>, self = 0\<rparr>"

definition demo_heap_world :: "nat world" where
  "demo_heap_world =
     \<lparr>next_block = 1, live = [(0, 6)], room = 94,
      mem = (\<lambda>_. [])(Heap 0 := [1, 2, 3, 4, 5]),
      places = (\<lambda>_. blank_place)
        (0 := \<lparr>is_used = False, is_enabled = True, p_bytes = Inline 0, size_place = 4\<rparr>)\<rparr>"

text \<open>A \<open>placed_vector<nat, 4>\<close> whose two elements are in its inline buffer with capacity
  two, as after \<open>shrink_to_fit\<close> on a vector that had left the buffer.\<close>

definition demo_tight_vector :: placed_vector where
  "demo_tight_vector =
     \<lparr>v_data = Inline 0, v_size = 2, v_capacity = 2, v_alloc = \<lparr>m_place = Some 0\<rparr>, self = 0\<rparr>"

definition demo_tight_world :: "nat world" where
  "demo_tight_world =
     \<lparr>next_block = 1, live = [], room = 10,
      mem = (\<lambda>_. [])(Inline 0 := [7, 8]),
      places = (\<lambda>_. blank_place)
        (0 := \<lparr>is_used = True, is_enabled = True, p_bytes = Inline 0, size_place = 4\<rparr>)\<rparr>"

text \<open>The growth policy \<open>capacity + capacity / 2\<close>, at least \<open>capacity + 1\<close>.\<close>

definition slack_half :: "nat \<Rightarrow> nat" where
  "slack_half c = c div 2 - 1"

text \<open>
  A \<open>placed_vector<nat, 4>\<close> default-constructed in slot 1 with 1, 2, 3 appended; a copy
  of it constructed in slot 0; a vector constructed and destroyed in a slot, which leaves
  its descriptor bytes behind; and the copy constructed in slot 0 after that.
\<close>

definition demo_source :: "nat world \<Rightarrow> error + (placed_vector \<times> nat world)" where
  "demo_source w =
     (case placed_vector_ctor 4 1 w of
        Inl e \<Rightarrow> Inl e
      | Inr (v, w1) \<Rightarrow> appends slack_half [1, 2, 3] v w1)"

definition copy_scenario ::
  "nat world \<Rightarrow> error + (placed_vector \<times> placed_vector \<times> nat world)" where
  "copy_scenario w =
     (case demo_source w of
        Inl e \<Rightarrow> Inl e
      | Inr (src, w1) \<Rightarrow>
          (case placed_vector_copy_ctor 4 0 src w1 of
             Inl e \<Rightarrow> Inl e
           | Inr (c, w2) \<Rightarrow> Inr (src, c, w2)))"

definition construct_destroy :: "nat \<Rightarrow> nat \<Rightarrow> 'a world \<Rightarrow> error + 'a world" where
  "construct_destroy N k w =
     (case placed_vector_ctor N k w of
        Inl e \<Rightarrow> Inl e
      | Inr (v, w1) \<Rightarrow> placed_vector_dtor v w1)"

definition copy_into_stale :: "error + (placed_vector \<times> placed_vector \<times> nat world)" where
  "copy_into_stale =
     (case construct_destroy 4 0 (blank_world 100) of
        Inl e \<Rightarrow> Inl e
      | Inr w \<Rightarrow> copy_scenario w)"

section \<open>The invariant is kept\<close>

text \<open>
  Each lemma takes a successful call and gives the invariant of the result, the elements,
  and what else the later proofs need.
\<close>

lemma reallocate_ok:
  assumes "vec_ok N v w" "v_size v \<le> n" "0 < n" "reallocate n v w = Inr (v', w')"
  shows "vec_ok N v' w'"
    and "elements v' w' = elements v w"
    and "v_size v' = v_size v" and "v_capacity v' = n" and "self v' = self v"
    and "is_enabled (places w' (self v)) = is_enabled (places w (self v))"
    and "v_data v' = Inline (self v) \<longleftrightarrow>
           is_enabled (places w (self v)) \<and> v_data v \<noteq> Inline (self v) \<and> n \<le> N"
  using assms
  unfolding reallocate_def allocate_def deallocate_def std_allocate_def std_deallocate_def
    vec_ok_def elements_def Let_def
  by (auto split: if_splits sum.splits addr.splits prod.splits option.splits)

lemma reserve_ok:
  assumes "vec_ok N v w" "reserve n v w = Inr (v', w')"
  shows "vec_ok N v' w' \<and> elements v' w' = elements v w \<and> v_size v' = v_size v \<and>
    n \<le> v_capacity v' \<and> self v' = self v \<and>
    is_enabled (places w' (self v)) = is_enabled (places w (self v))"
proof (cases "v_capacity v < n")
  case True
  have r: "reallocate n v w = Inr (v', w')"
    using assms(2) True by (simp add: reserve_def)
  have s: "v_size v \<le> n" using assms(1) True by (simp add: vec_ok_def)
  have p: "0 < n" using True by simp
  from reallocate_ok[OF assms(1) s p r] show ?thesis by simp
next
  case False
  then show ?thesis using assms by (auto simp: reserve_def)
qed

lemma reserve_cap:
  "reserve n v w = Inr (v', w') \<Longrightarrow> v_capacity v' = max n (v_capacity v)"
  unfolding reserve_def reallocate_def Let_def
  by (auto split: if_splits sum.splits prod.splits)

lemma shrink_ok:
  assumes "vec_ok N v w" "shrink_to_fit v w = Inr (v', w')"
  shows "vec_ok N v' w' \<and> elements v' w' = elements v w \<and> v_size v' = v_size v \<and>
    v_capacity v' = v_size v \<and> self v' = self v \<and>
    is_enabled (places w' (self v)) = is_enabled (places w (self v))"
proof (cases "v_size v = v_capacity v")
  case True
  then show ?thesis using assms by (auto simp: shrink_to_fit_def)
next
  case ne: False
  show ?thesis
  proof (cases "v_size v = 0")
    case True
    then show ?thesis using assms ne
      unfolding shrink_to_fit_def deallocate_def std_deallocate_def vec_ok_def elements_def
      by (auto split: if_splits sum.splits addr.splits option.splits)
  next
    case False
    have r: "reallocate (v_size v) v w = Inr (v', w')"
      using assms(2) ne False by (simp add: shrink_to_fit_def)
    from reallocate_ok[OF assms(1) _ _ r] False show ?thesis by simp
  qed
qed

lemma store_back_ok:
  assumes "vec_ok N v w" "v_size v < v_capacity v" "store_back x v w = (v', w')"
  shows "vec_ok N v' w' \<and> elements v' w' = elements v w @ [x] \<and> v_size v' = Suc (v_size v) \<and>
    v_capacity v' = v_capacity v \<and> self v' = self v \<and> v_data v' = v_data v \<and>
    places w' = places w \<and> next_block w' = next_block w \<and> live w' = live w \<and> room w' = room w"
  using assms unfolding store_back_def vec_ok_def elements_def
  by (auto split: addr.splits)

lemma push_back_ok:
  assumes "vec_ok N v w" "push_back slack x v w = Inr (v', w')"
  shows "vec_ok N v' w' \<and> elements v' w' = elements v w @ [x] \<and> v_size v' = Suc (v_size v) \<and>
    self v' = self v \<and>
    is_enabled (places w' (self v)) = is_enabled (places w (self v))"
proof (cases "v_size v < v_capacity v")
  case True
  then have "store_back x v w = (v', w')" using assms(2) by (simp add: push_back_def)
  from store_back_ok[OF assms(1) True this] show ?thesis by simp
next
  case False
  then obtain v1 w1 where r: "reallocate (Suc (v_capacity v) + slack (v_capacity v)) v w = Inr (v1, w1)"
    and s: "store_back x v1 w1 = (v', w')"
    using assms(2) by (auto simp: push_back_def split: sum.splits)
  have le: "v_size v \<le> Suc (v_capacity v) + slack (v_capacity v)"
    using assms(1) by (simp add: vec_ok_def)
  note R = reallocate_ok[OF assms(1) le _ r]
  have lt: "v_size v1 < v_capacity v1" using R(3,4) assms(1) by (simp add: vec_ok_def)
  from store_back_ok[OF R(1) lt s] R show ?thesis by simp
qed

lemma pop_back_ok:
  assumes "vec_ok N v w" "pop_back v w = Inr (v', w')"
  shows "vec_ok N v' w' \<and> elements v' w' = butlast (elements v w) \<and> w' = w \<and> self v' = self v
     \<and> v_data v' = v_data v"
  using assms unfolding pop_back_def vec_ok_def elements_def
  by (auto simp: butlast_take split: if_splits addr.splits)

lemma clear_ok:
  assumes "vec_ok N v w" "clear v w = Inr (v', w')"
  shows "vec_ok N v' w' \<and> elements v' w' = [] \<and> w' = w \<and> self v' = self v \<and> v_data v' = v_data v"
  using assms unfolding clear_def vec_ok_def elements_def
  by (auto split: if_splits addr.splits)

lemma set_enabled_ok:
  "vec_ok N v w \<Longrightarrow> self v' = self v \<Longrightarrow>
   vec_ok N v (set_enabled b v' w) \<and> elements v (set_enabled b v' w) = elements v w \<and>
   is_enabled (places (set_enabled b v' w) (self v)) = b \<and>
   is_used (places (set_enabled b v' w) (self v)) = is_used (places w (self v))"
  unfolding set_enabled_def vec_ok_def elements_def
  by (auto split: addr.splits)

lemma is_in_place_iff:
  "vec_ok N v w \<Longrightarrow> is_in_place v w \<longleftrightarrow> v_data v = Inline (self v)"
  by (simp add: is_in_place_def get_allocator_def allocator_in_place_copy_def alloc_is_in_place_def vec_ok_def)

lemma inline_cap: "vec_ok N v w \<Longrightarrow> v_data v = Inline k \<Longrightarrow> v_capacity v \<le> N \<and> k = self v"
  by (simp add: vec_ok_def)

lemma pip_grow_ok:
  assumes "well_formed N v w" "pip_grow N v w = Inr (v1, w1)"
  shows "well_formed N v1 w1 \<and> elements v1 w1 = elements v w \<and> v_size v1 = v_size v \<and> self v1 = self v \<and>
     N < v_capacity v1 \<and> v_data v1 \<noteq> Inline (self v) \<and> \<not> is_in_place v1 w1"
proof -
  have ok: "vec_ok N v w" and en: "is_enabled (places w (self v))"
    using assms(1) by (simp_all add: well_formed_def)
  have r: "reserve (N + 1) v w = Inr (v1, w1)" using assms(2) by (simp add: pip_grow_def)
  note R = reserve_ok[OF ok r]
  have cap: "N < v_capacity v1" using R by simp
  have "v_data v1 \<noteq> Inline (self v)" using inline_cap[of N v1 w1 "self v"] R cap by auto
  then show ?thesis using R en cap is_in_place_iff[of N v1 w1] by (simp add: well_formed_def)
qed

lemma pip_shrink_ok:
  assumes "well_formed N v w" "v_size v \<le> N" "pip_shrink N v w = Inr (v2, w2)"
  shows "vec_ok N v2 w2 \<and> elements v2 w2 = elements v w \<and> v_size v2 = v_size v \<and> self v2 = self v \<and>
     v_capacity v2 = v_size v \<and> (v_data v2 = Inline (self v) \<longleftrightarrow> v_size v = N \<and> 0 < N)"
proof -
  obtain v1 w1 where g: "pip_grow N v w = Inr (v1, w1)"
    and s: "shrink_to_fit v1 (pip_disable N v1 w1) = Inr (v2, w2)"
    using assms(3) by (auto simp: pip_shrink_def split: sum.splits)
  note G = pip_grow_ok[OF assms(1) g]
  have ok1: "vec_ok N v1 w1" using G by (simp add: well_formed_def)
  have en1: "is_enabled (places w1 (self v1))" using G by (auto simp: well_formed_def)
  let ?w = "pip_disable N v1 w1"
  have D: "vec_ok N v1 ?w \<and> elements v1 ?w = elements v1 w1 \<and>
        (is_enabled (places ?w (self v1)) \<longleftrightarrow> v_size v1 = N)"
    using set_enabled_ok[OF ok1 refl, of False] ok1 en1 by (simp add: pip_disable_def)
  note S = shrink_ok[OF D[THEN conjunct1] s]
  have ne: "v_size v1 \<noteq> v_capacity v1" using G assms(2) by simp
  have land: "v_data v2 = Inline (self v) \<longleftrightarrow> v_size v = N \<and> 0 < N"
  proof (cases "v_size v1 = 0")
    case True
    then have "v_data v2 \<noteq> Inline (self v)" using inline_cap[of N v2 w2 "self v"] S G
      by (auto simp: vec_ok_def)
    then show ?thesis using True G by auto
  next
    case False
    then have r: "reallocate (v_size v1) v1 ?w = Inr (v2, w2)"
      using s ne by (simp add: shrink_to_fit_def)
    from reallocate_ok(7)[OF D[THEN conjunct1] _ _ r] False D G assms(2) show ?thesis by auto
  qed
  show ?thesis using S D G land by simp
qed

lemma pip_enable_ok:
  assumes "well_formed N v w" "v_size v \<le> N" "pip_enable N v w = Inr (v3, w3)"
  shows "well_formed N v3 w3 \<and> elements v3 w3 = elements v w \<and> v_size v3 = v_size v \<and> self v3 = self v \<and>
     v_capacity v3 = v_size v \<and> (v_data v3 = Inline (self v) \<longleftrightarrow> v_size v = N \<and> 0 < N)"
proof -
  obtain v2 w2 where s: "pip_shrink N v w = Inr (v2, w2)"
    and e: "v3 = v2" "w3 = set_enabled True v2 w2"
    using assms(3) by (auto simp: pip_enable_def split: sum.splits)
  note S = pip_shrink_ok[OF assms(1,2) s]
  from set_enabled_ok[OF S[THEN conjunct1] refl, of True] S e show ?thesis
    by (simp add: well_formed_def)
qed

lemma pip_reclaim_ok:
  assumes "well_formed N v w" "v_size v \<le> N" "0 < N" "pip_reclaim N v w = Inr (v4, w4)"
  shows "well_formed N v4 w4 \<and> elements v4 w4 = elements v w \<and> v_size v4 = v_size v \<and> self v4 = self v \<and>
     v_capacity v4 = N \<and> v_data v4 = Inline (self v) \<and> is_in_place v4 w4"
proof -
  obtain v3 w3 where e: "pip_enable N v w = Inr (v3, w3)"
    and r: "reserve N v3 w3 = Inr (v4, w4)"
    using assms(4) by (auto simp: pip_reclaim_def split: sum.splits)
  note E = pip_enable_ok[OF assms(1,2) e]
  have ok3: "vec_ok N v3 w3" and en3: "is_enabled (places w3 (self v3))"
    using E by (auto simp: well_formed_def)
  note R = reserve_ok[OF ok3 r]
  have cap: "v_capacity v4 = N" using reserve_cap[OF r] E assms(2) by simp
  have land: "v_data v4 = Inline (self v)"
  proof (cases "v_size v = N")
    case True
    then have "v4 = v3" using r E by (simp add: reserve_def)
    then show ?thesis using E True assms(3) by simp
  next
    case False
    then have "reallocate N v3 w3 = Inr (v4, w4)" using r E assms(2) by (simp add: reserve_def)
    from reallocate_ok(7)[OF ok3 _ assms(3) this] E en3 False assms(2) show ?thesis by simp
  qed
  show ?thesis using R E en3 cap land is_in_place_iff[of N v4 w4] by (simp add: well_formed_def)
qed

lemma put_in_place_ok:
  assumes "well_formed N v w" "v_size v \<le> N" "0 < N" "put_in_place N v w = Inr (b, v', w')"
  shows "b \<and> is_in_place v' w' \<and> elements v' w' = elements v w \<and> well_formed N v' w' \<and> self v' = self v
     \<and> v_capacity v' = N"
proof (cases "is_in_place v w \<and> v_capacity v = N")
  case True
  then show ?thesis using assms by (simp add: put_in_place_def)
next
  case False
  then obtain v4 w4 where r: "pip_reclaim N v w = Inr (v4, w4)"
    and e: "v' = v4" "w' = w4" "b = is_in_place v4 w4"
    using assms(2,4) by (auto simp: put_in_place_def split: sum.splits if_splits)
  from pip_reclaim_ok[OF assms(1,2,3) r] e show ?thesis by simp
qed

lemma put_in_place_wf:
  assumes "well_formed N v w" "put_in_place N v w = Inr (b, v', w')"
  shows "well_formed N v' w' \<and> self v' = self v"
proof (cases "(is_in_place v w \<and> v_capacity v = N) \<or> N < v_size v")
  case True
  then show ?thesis using assms by (auto simp: put_in_place_def split: if_splits)
next
  case False
  then have le: "v_size v \<le> N" by simp
  obtain v3 w3 where e: "pip_enable N v w = Inr (v3, w3)"
    and r: "reserve N v3 w3 = Inr (v', w')"
    using assms(2) False
    by (auto simp: put_in_place_def pip_reclaim_def split: sum.splits if_splits)
  note E = pip_enable_ok[OF assms(1) le e]
  have ok3: "vec_ok N v3 w3" using E by (simp add: well_formed_def)
  from reserve_ok[OF ok3 r] E show ?thesis by (auto simp: well_formed_def)
qed

text \<open>On a vector that satisfies the invariant, a call fails only when the fallback
  allocator does.\<close>

lemma reallocate_error:
  assumes "vec_ok N v w" "reallocate n v w = Inl e"
  shows "e = BadAlloc"
  using assms
  unfolding reallocate_def allocate_def deallocate_def std_allocate_def std_deallocate_def
    vec_ok_def Let_def
  by (auto split: if_splits sum.splits addr.splits prod.splits option.splits)

lemma reserve_error:
  "vec_ok N v w \<Longrightarrow> reserve n v w = Inl e \<Longrightarrow> e = BadAlloc"
  using reallocate_error[of N v w n e] by (simp add: reserve_def split: if_splits)

lemma shrink_error:
  assumes "vec_ok N v w" "shrink_to_fit v w = Inl e"
  shows "e = BadAlloc"
proof (cases "v_size v = 0")
  case True
  then show ?thesis using assms
    unfolding shrink_to_fit_def deallocate_def std_deallocate_def vec_ok_def
    by (auto split: if_splits sum.splits addr.splits option.splits)
next
  case False
  then show ?thesis using assms reallocate_error[of N v w "v_size v" e]
    by (simp add: shrink_to_fit_def split: if_splits)
qed

lemma put_in_place_error:
  assumes "well_formed N v w" "put_in_place N v w = Inl e"
  shows "e = BadAlloc"
proof -
  have ok: "vec_ok N v w" using assms(1) by (simp add: well_formed_def)
  have le: "v_size v \<le> N" and r: "pip_reclaim N v w = Inl e"
    using assms(2) by (auto simp: put_in_place_def split: if_splits sum.splits)
  show ?thesis
  proof (cases "pip_grow N v w")
    case (Inl e1)
    then have "e = e1" using r
      by (simp add: pip_reclaim_def pip_enable_def pip_shrink_def)
    then show ?thesis using reserve_error[OF ok, of "N + 1" e1] Inl by (simp add: pip_grow_def)
  next
    case (Inr g)
    obtain v1 w1 where g: "pip_grow N v w = Inr (v1, w1)" using Inr by (cases g) simp
    have ok1: "vec_ok N v1 w1" using pip_grow_ok[OF assms(1) g] by (simp add: well_formed_def)
    have okd: "vec_ok N v1 (pip_disable N v1 w1)"
      using set_enabled_ok[OF ok1 refl, of False] ok1 by (simp add: pip_disable_def)
    show ?thesis
    proof (cases "shrink_to_fit v1 (pip_disable N v1 w1)")
      case (Inl e1)
      then have "e = e1" using r g
        by (simp add: pip_reclaim_def pip_enable_def pip_shrink_def)
      then show ?thesis using shrink_error[OF okd Inl] by simp
    next
      case (Inr s)
      obtain v2 w2 where s: "shrink_to_fit v1 (pip_disable N v1 w1) = Inr (v2, w2)"
        using Inr by (cases s) simp
      have en: "pip_enable N v w = Inr (v2, set_enabled True v2 w2)"
        using g s by (simp add: pip_enable_def pip_shrink_def)
      have ok3: "vec_ok N v2 (set_enabled True v2 w2)"
        using pip_enable_ok[OF assms(1) le en] by (simp add: well_formed_def)
      have "reserve N v2 (set_enabled True v2 w2) = Inl e"
        using r en by (simp add: pip_reclaim_def)
      from reserve_error[OF ok3 this] show ?thesis .
    qed
  qed
qed

section \<open>Concrete states satisfy the invariant\<close>

lemmas op_defs = put_in_place_def pip_reclaim_def pip_enable_def pip_shrink_def pip_disable_def
  pip_grow_def set_enabled_def reserve_def shrink_to_fit_def reallocate_def allocate_def
  deallocate_def std_allocate_def std_deallocate_def is_in_place_def get_allocator_def allocator_in_place_copy_def alloc_is_in_place_def
  elements_def

lemma demo_heap_wf: "well_formed 4 demo_heap_vector demo_heap_world"
  by (simp add: well_formed_def vec_ok_def demo_heap_vector_def demo_heap_world_def)

lemma demo_heap_elements: "elements demo_heap_vector demo_heap_world = [1, 2, 3]"
  by (simp add: elements_def demo_heap_vector_def demo_heap_world_def)

lemma demo_heap_put_in_place: "\<not> isl (put_in_place 4 demo_heap_vector demo_heap_world)"
  by (simp add: op_defs demo_heap_vector_def demo_heap_world_def Let_def)

section \<open>\<open>put_in_place\<close>\<close>

text \<open>
  C2. A \<open>placed_vector\<close> that satisfies its invariant, has a positive inline capacity \<open>N\<close>
  and holds at most \<open>N\<close> elements: \<open>put_in_place\<close> can fail only with the fallback
  allocator's \<open>std::bad_alloc\<close>, and when it returns, it returns true, \<open>is_in_place\<close> is
  true afterwards, and the elements are the same, in the same order.
\<close>

theorem put_in_place_succeeds:
  assumes "well_formed N v w" "v_size v \<le> N" "0 < N"
  shows "(\<forall>e. put_in_place N v w = Inl e \<longrightarrow> e = BadAlloc) \<and>
     (\<forall>b v' w'. put_in_place N v w = Inr (b, v', w') \<longrightarrow>
        b \<and> is_in_place v' w' \<and> elements v' w' = elements v w)"
  using put_in_place_error[OF assms(1)] put_in_place_ok[OF assms] by blast

theorem put_in_place_succeeds_witness:
  "well_formed 4 demo_heap_vector demo_heap_world \<and> v_size demo_heap_vector \<le> 4 \<and>
   elements demo_heap_vector demo_heap_world = [1, 2, 3] \<and>
   (\<exists>v' w'. put_in_place 4 demo_heap_vector demo_heap_world = Inr (True, v', w') \<and>
      is_in_place v' w' \<and> elements v' w' = [1, 2, 3])"
proof -
  have s: "v_size demo_heap_vector \<le> 4" by (simp add: demo_heap_vector_def)
  obtain b v' w' where r: "put_in_place 4 demo_heap_vector demo_heap_world = Inr (b, v', w')"
    using demo_heap_put_in_place
    by (cases "put_in_place 4 demo_heap_vector demo_heap_world") auto
  have p: "(0::nat) < 4" by simp
  note T = put_in_place_succeeds[OF demo_heap_wf s p, THEN conjunct2, rule_format, OF r]
  from T r demo_heap_elements demo_heap_wf s show ?thesis by simp
qed

text \<open>
  C3. A \<open>placed_vector\<close> that holds more than \<open>N\<close> elements (within its capacity, as every
  vector does): \<open>put_in_place\<close> returns false as a value, and the object and the world,
  the fallback allocator's bookkeeping included, are exactly what they were.
\<close>

theorem put_in_place_too_large:
  assumes "N < v_size v" "v_size v \<le> v_capacity v"
  shows "put_in_place N v w = Inr (False, v, w)"
  using assms by (simp add: put_in_place_def)

theorem put_in_place_too_large_witness:
  "(4::nat) < v_size (demo_heap_vector\<lparr>v_size := 5\<rparr>) \<and>
   v_size (demo_heap_vector\<lparr>v_size := 5\<rparr>) \<le> v_capacity (demo_heap_vector\<lparr>v_size := 5\<rparr>) \<and>
   put_in_place 4 (demo_heap_vector\<lparr>v_size := 5\<rparr>) demo_heap_world =
     Inr (False, demo_heap_vector\<lparr>v_size := 5\<rparr>, demo_heap_world)"
proof -
  have a: "(4::nat) < v_size (demo_heap_vector\<lparr>v_size := 5\<rparr>)" by simp
  have b: "v_size (demo_heap_vector\<lparr>v_size := 5\<rparr>) \<le> v_capacity (demo_heap_vector\<lparr>v_size := 5\<rparr>)"
    by (simp add: demo_heap_vector_def)
  from put_in_place_too_large[OF a b, of demo_heap_world] a b show ?thesis by simp
qed

section \<open>The allocator\<close>

lemma std_allocate_result:
  "std_allocate n w = Inr (p, w') \<Longrightarrow>
     p = Heap (next_block w) \<and> places w' = places w \<and> mem w' = mem w \<and>
     next_block w' = Suc (next_block w)"
  by (auto simp: std_allocate_def split: if_splits)

lemma allocate_refused:
  assumes "\<not> (\<exists>j. m_place a = Some j \<and> is_enabled (places w j) \<and> \<not> is_used (places w j) \<and>
      n \<le> size_place (places w j))"
  shows "allocate a n w = std_allocate n w"
proof (cases "m_place a")
  case None
  then show ?thesis by (simp add: allocate_def)
next
  case (Some k)
  then have "\<not> (is_enabled (places w k) \<and> \<not> is_used (places w k) \<and> n \<le> size_place (places w k))"
    using assms by blast
  then show ?thesis using Some by (auto simp: allocate_def)
qed

lemma allocate_granted:
  assumes "m_place a = Some k" "is_enabled (places w k)" "\<not> is_used (places w k)"
    "n \<le> size_place (places w k)"
  shows "allocate a n w =
        Inr (p_bytes (places w k),
             w\<lparr>places := (places w)(k := (places w k)\<lparr>is_used := True\<rparr>)\<rparr>)"
  using assms by (simp add: allocate_def)

text \<open>
  C4. \<open>allocate(n)\<close> returns the address recorded in the descriptor (for a
  \<open>placed_vector\<close> the inline buffer) and marks the descriptor used when a descriptor is
  attached, enabled, not used and \<open>n\<close> is at most its size (\<open>N\<close>); in every other case the
  result is the fallback allocator's, which is a block of its own and leaves every
  descriptor as it was.
\<close>

theorem allocate_inline_iff:
  "(m_place a = Some k \<and> is_enabled (places w k) \<and> \<not> is_used (places w k) \<and>
      n \<le> size_place (places w k) \<longrightarrow>
      allocate a n w =
        Inr (p_bytes (places w k),
             w\<lparr>places := (places w)(k := (places w k)\<lparr>is_used := True\<rparr>)\<rparr>)) \<and>
   (\<not> (\<exists>j. m_place a = Some j \<and> is_enabled (places w j) \<and> \<not> is_used (places w j) \<and>
      n \<le> size_place (places w j)) \<longrightarrow>
      allocate a n w = std_allocate n w \<and>
      (\<forall>p w'. allocate a n w = Inr (p, w') \<longrightarrow>
         p = Heap (next_block w) \<and> places w' = places w))"
proof (intro conjI impI allI)
  assume "m_place a = Some k \<and> is_enabled (places w k) \<and> \<not> is_used (places w k) \<and>
      n \<le> size_place (places w k)"
  then show "allocate a n w =
        Inr (p_bytes (places w k),
             w\<lparr>places := (places w)(k := (places w k)\<lparr>is_used := True\<rparr>)\<rparr>)"
    using allocate_granted[of a k w n] by blast
next
  assume n: "\<not> (\<exists>j. m_place a = Some j \<and> is_enabled (places w j) \<and> \<not> is_used (places w j) \<and>
      n \<le> size_place (places w j))"
  show "allocate a n w = std_allocate n w" by (rule allocate_refused[OF n])
next
  fix p w'
  assume n: "\<not> (\<exists>j. m_place a = Some j \<and> is_enabled (places w j) \<and> \<not> is_used (places w j) \<and>
      n \<le> size_place (places w j))" and r: "allocate a n w = Inr (p, w')"
  have "std_allocate n w = Inr (p, w')" using allocate_refused[OF n] r by simp
  from std_allocate_result[OF this] show "p = Heap (next_block w)" by simp
next
  fix p w'
  assume n: "\<not> (\<exists>j. m_place a = Some j \<and> is_enabled (places w j) \<and> \<not> is_used (places w j) \<and>
      n \<le> size_place (places w j))" and r: "allocate a n w = Inr (p, w')"
  have "std_allocate n w = Inr (p, w')" using allocate_refused[OF n] r by simp
  from std_allocate_result[OF this] show "places w' = places w" by simp
qed

theorem allocate_inline_iff_witness:
  "(case allocate \<lparr>m_place = Some 0\<rparr> 3 demo_heap_world of
      Inl e \<Rightarrow> False
    | Inr (p, w') \<Rightarrow> p = Inline 0 \<and> is_used (places w' 0)) \<and>
   (case allocate \<lparr>m_place = Some 0\<rparr> 5 demo_heap_world of
      Inl e \<Rightarrow> False
    | Inr (p, w') \<Rightarrow> p = Heap 1 \<and> \<not> is_used (places w' 0)) \<and>
   (case allocate \<lparr>m_place = None\<rparr> 3 demo_heap_world of
      Inl e \<Rightarrow> False
    | Inr (p, w') \<Rightarrow> p = Heap 1 \<and> \<not> is_used (places w' 0))"
proof -
  note A = allocate_inline_iff[of "\<lparr>m_place = Some 0\<rparr>" 0 demo_heap_world 3, THEN conjunct1, rule_format]
  note B = allocate_inline_iff[of "\<lparr>m_place = Some 0\<rparr>" 0 demo_heap_world 5, THEN conjunct2, rule_format]
  note C = allocate_inline_iff[of "\<lparr>m_place = None\<rparr>" 0 demo_heap_world 3, THEN conjunct2, rule_format]
  have a: "allocate \<lparr>m_place = Some 0\<rparr> 3 demo_heap_world =
     Inr (p_bytes (places demo_heap_world 0),
          demo_heap_world\<lparr>places := (places demo_heap_world)
            (0 := (places demo_heap_world 0)\<lparr>is_used := True\<rparr>)\<rparr>)"
    by (rule A) (simp add: demo_heap_world_def)
  have b: "allocate \<lparr>m_place = Some 0\<rparr> 5 demo_heap_world = std_allocate 5 demo_heap_world"
    by (rule B[THEN conjunct1]) (simp add: demo_heap_world_def)
  have c: "allocate \<lparr>m_place = None\<rparr> 3 demo_heap_world = std_allocate 3 demo_heap_world"
    by (rule C[THEN conjunct1]) simp
  show ?thesis
    unfolding a b c by (simp add: demo_heap_world_def std_allocate_def)
qed

section \<open>Construction\<close>

lemma placed_vector_ctor_result:
  assumes "0 < N"
  shows "placed_vector_ctor N k w =
     Inr (\<lparr>v_data = Inline k, v_size = 0, v_capacity = N,
           v_alloc = \<lparr>m_place = Some k\<rparr>, self = k\<rparr>,
          w\<lparr>places := (places w)(k := \<lparr>is_used = True, is_enabled = True,
                                      p_bytes = Inline k, size_place = N\<rparr>),
            mem := (mem w)(Inline k := [])\<rparr>)"
  using assms
  by (simp add: placed_vector_ctor_def vector_ctor_def allocator_in_place_ctor_def
      managed_place_ctor_def place_manager_ctor_def reserve_def reallocate_def allocate_def
      Let_def)

lemma placed_vector_ctor_zero:
  "placed_vector_ctor 0 k w =
     Inr (\<lparr>v_data = Null, v_size = 0, v_capacity = 0,
           v_alloc = \<lparr>m_place = Some k\<rparr>, self = k\<rparr>,
          w\<lparr>places := (places w)(k := \<lparr>is_used = False, is_enabled = True,
                                      p_bytes = Inline k, size_place = 0\<rparr>)\<rparr>)"
  by (simp add: placed_vector_ctor_def vector_ctor_def allocator_in_place_ctor_def
      managed_place_ctor_def place_manager_ctor_def reserve_def Let_def)

lemma placed_vector_ctor_wf:
  assumes "placed_vector_ctor N k w = Inr (v, w')"
  shows "well_formed N v w' \<and> v_size v = 0 \<and> self v = k"
proof (cases "N = 0")
  case True
  then show ?thesis using assms placed_vector_ctor_zero[of k w]
    by (auto simp: well_formed_def vec_ok_def)
next
  case False
  then show ?thesis using assms placed_vector_ctor_result[of N k w]
    by (auto simp: well_formed_def vec_ok_def)
qed

text \<open>
  C9. For a positive \<open>N\<close>, in any memory and any slot, the default constructor returns an
  empty vector with \<open>is_in_place\<close> true, \<open>size_in_place\<close> equal to \<open>N\<close> and a capacity of
  at least \<open>N\<close>: \<open>reserve(N)\<close> was served from the inline buffer, and the fallback
  allocator was not touched.
\<close>

theorem fresh_is_in_place:
  assumes "0 < N"
  shows "\<exists>v w'. placed_vector_ctor N k w = Inr (v, w') \<and>
     elements v w' = [] \<and> v_size v = 0 \<and> is_in_place v w' \<and> size_in_place N v = N \<and>
     N \<le> v_capacity v \<and> v_data v = Inline k \<and>
     next_block w' = next_block w \<and> live w' = live w \<and> room w' = room w"
  using placed_vector_ctor_result[OF assms, of k w]
  by (simp add: elements_def is_in_place_def get_allocator_def allocator_in_place_copy_def alloc_is_in_place_def size_in_place_def)

theorem fresh_is_in_place_witness:
  "\<exists>v w'. placed_vector_ctor 4 0 (blank_world 0 :: nat world) = Inr (v, w') \<and>
     elements v w' = [] \<and> v_size v = 0 \<and> is_in_place v w' \<and> size_in_place 4 v = 4 \<and>
     4 \<le> v_capacity v \<and> v_data v = Inline 0"
proof -
  have p: "(0::nat) < 4" by simp
  from fresh_is_in_place[OF p, of 0 "blank_world 0 :: nat world"] show ?thesis by auto
qed

section \<open>The null place pointer\<close>

lemma deallocate_null_iff: "deallocate a p n w = Inl NullDeref \<longleftrightarrow> m_place a = None"
  by (auto simp: deallocate_def std_deallocate_def split: option.splits addr.splits)

lemma std_allocate_no_deref: "std_allocate n w \<noteq> Inl NullDeref"
  by (simp add: std_allocate_def)

lemma allocate_no_deref: "allocate a n w \<noteq> Inl NullDeref"
  by (simp add: allocate_def std_allocate_no_deref split: option.splits)

lemma safe_reallocate:
  assumes "m_place (v_alloc v) \<noteq> None"
  shows "safe (v_alloc v) (reallocate n v w)"
proof (cases "allocate (v_alloc v) n w")
  case (Inl e)
  then show ?thesis using allocate_no_deref[of "v_alloc v" n w]
    by (simp add: safe_def reallocate_def)
next
  case (Inr r)
  obtain p w1 where r: "r = (p, w1)" by (cases r)
  show ?thesis
  proof (cases "v_data v = Null")
    case True
    then show ?thesis using Inr r by (simp add: safe_def reallocate_def Let_def)
  next
    case False
    let ?w2 = "w1\<lparr>mem := (mem w1)(p := take (v_size v) (mem w1 (v_data v)))\<rparr>"
    show ?thesis
    proof (cases "deallocate (v_alloc v) (v_data v) (v_capacity v) ?w2")
      case (Inl e)
      then have "e \<noteq> NullDeref" using deallocate_null_iff assms by metis
      then show ?thesis using Inr r False Inl by (simp add: safe_def reallocate_def Let_def)
    next
      case (Inr w3)
      then show ?thesis using \<open>allocate (v_alloc v) n w = Inr r\<close> r False
        by (simp add: safe_def reallocate_def Let_def)
    qed
  qed
qed

lemma safe_Inr: "safe a (Inr (v, w)) \<longleftrightarrow> v_alloc v = a"
  by (simp add: safe_def)

lemma safe_reserve:
  "m_place (v_alloc v) \<noteq> None \<Longrightarrow> safe (v_alloc v) (reserve n v w)"
  by (simp add: reserve_def safe_reallocate safe_Inr)

lemma safe_shrink_to_fit:
  assumes "m_place (v_alloc v) \<noteq> None"
  shows "safe (v_alloc v) (shrink_to_fit v w)"
proof (cases "deallocate (v_alloc v) (v_data v) (v_capacity v) w")
  case (Inl e)
  then have "e \<noteq> NullDeref" using deallocate_null_iff assms by metis
  then show ?thesis using Inl assms
    by (simp add: shrink_to_fit_def safe_reallocate safe_Inr) (simp add: safe_def)
next
  case (Inr w1)
  then show ?thesis using assms
    by (simp add: shrink_to_fit_def safe_reallocate safe_Inr)
qed

lemma safe_push_back:
  assumes "m_place (v_alloc v) \<noteq> None"
  shows "safe (v_alloc v) (push_back slack x v w)"
proof (cases "v_size v < v_capacity v")
  case True
  then show ?thesis by (simp add: push_back_def store_back_def safe_Inr)
next
  case False
  then show ?thesis
    using safe_reallocate[OF assms, of "Suc (v_capacity v) + slack (v_capacity v)" w]
    by (cases "reallocate (Suc (v_capacity v) + slack (v_capacity v)) v w")
      (auto simp: push_back_def store_back_def safe_def)
qed

lemma safe_bind:
  assumes "safe a r" "\<And>v w. r = Inr (v, w) \<Longrightarrow> v_alloc v = a \<Longrightarrow> safe a (f v w)"
  shows "safe a (case r of Inl e \<Rightarrow> Inl e | Inr (v, w) \<Rightarrow> f v w)"
  using assms by (cases r) (auto simp: safe_def)

lemma safe_put_in_place:
  assumes "m_place (v_alloc v) \<noteq> None"
  shows "safe (v_alloc v)
     (case put_in_place N v w of Inl e \<Rightarrow> Inl e | Inr (b, v1, w1) \<Rightarrow> Inr (v1, w1))"
proof -
  have g: "safe (v_alloc v) (pip_grow N v w)"
    by (simp add: pip_grow_def safe_reserve assms)
  have s: "safe (v_alloc v) (pip_shrink N v w)"
    unfolding pip_shrink_def
    by (rule safe_bind[OF g]) (metis safe_shrink_to_fit assms)
  have e: "safe (v_alloc v) (pip_enable N v w)"
    unfolding pip_enable_def
    by (rule safe_bind[OF s]) (simp add: safe_Inr)
  have r: "safe (v_alloc v) (pip_reclaim N v w)"
    unfolding pip_reclaim_def
    by (rule safe_bind[OF e]) (metis safe_reserve assms)
  show ?thesis using r
    by (cases "pip_reclaim N v w") (auto simp: put_in_place_def safe_def)
qed

lemma safe_operation:
  assumes "m_place (v_alloc v) \<noteq> None"
  shows "safe (v_alloc v) (apply_operation slack N x v w)"
  using assms
  by (cases x)
    (simp_all add: safe_push_back safe_reserve safe_shrink_to_fit safe_put_in_place
      pop_back_def clear_def safe_Inr, simp add: safe_def)

lemma safe_run:
  assumes "m_place (v_alloc v) \<noteq> None"
  shows "safe (v_alloc v) (run slack N xs v w)"
  using assms
proof (induction xs arbitrary: v w)
  case Nil
  then show ?case by (simp add: safe_Inr)
next
  case (Cons x xs)
  show ?case unfolding run.simps
    by (rule safe_bind[OF safe_operation[OF Cons.prems]]) (metis Cons.IH Cons.prems)
qed

lemma placed_vector_copy_ctor_alloc:
  "placed_vector_copy_ctor N k other w = Inr (c, w') \<Longrightarrow>
     v_alloc c = \<lparr>m_place = Some k\<rparr> \<and> self c = k"
  by (auto simp: placed_vector_copy_ctor_def vector_copy_ctor_def vector_ctor_def
      allocator_in_place_ctor_def split: if_splits sum.splits prod.splits)

lemma placed_vector_ctor_alloc:
  "placed_vector_ctor N k w = Inr (v, w') \<Longrightarrow> v_alloc v = \<lparr>m_place = Some k\<rparr> \<and> self v = k"
  using safe_reserve[of "vector_ctor (allocator_in_place_ctor (Some k)) k" N
      "w\<lparr>places := (places w)(k := managed_place_ctor k N)\<rparr>"]
  by (auto simp: placed_vector_ctor_def Let_def safe_def vector_ctor_def allocator_in_place_ctor_def
      reserve_def reallocate_def split: if_splits sum.splits prod.splits)

lemma run_no_deref:
  assumes "m_place (v_alloc v) = Some k"
  shows "run slack N xs v w \<noteq> Inl NullDeref"
  using safe_run[of v slack N xs w] assms by (auto simp: safe_def)

text \<open>
  C10. \<open>deallocate\<close> dereferences \<open>m_place\<close> without a test: its result is the null
  dereference exactly when the pointer is null, whereas \<open>allocate\<close> then delegates to the
  fallback and \<open>is_in_place\<close> is false. The default second constructor argument and the
  rebinding constructor produce the null pointer. Both constructors of \<open>placed_vector\<close>
  bind the allocator to the object's own \<open>m_place\<close>, and no sequence of operations on
  such an object runs into the null dereference.
\<close>

theorem deallocate_needs_place:
  "(deallocate a p n w = Inl NullDeref \<longleftrightarrow> m_place a = None) \<and>
   (m_place a = None \<longrightarrow> allocate a n w = std_allocate n w \<and> \<not> alloc_is_in_place a w) \<and>
   m_place allocator_in_place_default = None \<and>
   m_place (allocator_in_place_rebind b) = None \<and>
   (\<forall>v w'. placed_vector_ctor N k w = Inr (v, w') \<longrightarrow>
      m_place (v_alloc v) = Some k \<and> run slack N xs v w' \<noteq> Inl NullDeref) \<and>
   (\<forall>c w'. placed_vector_copy_ctor N k other w = Inr (c, w') \<longrightarrow>
      m_place (v_alloc c) = Some k \<and> run slack N xs c w' \<noteq> Inl NullDeref)"
proof (intro conjI allI impI)
  show "deallocate a p n w = Inl NullDeref \<longleftrightarrow> m_place a = None"
    by (rule deallocate_null_iff)
next
  assume "m_place a = None"
  then show "allocate a n w = std_allocate n w" by (simp add: allocate_def)
next
  assume "m_place a = None"
  then show "\<not> alloc_is_in_place a w" by (simp add: alloc_is_in_place_def)
next
  show "m_place allocator_in_place_default = None"
    by (simp add: allocator_in_place_default_def allocator_in_place_ctor_def)
next
  show "m_place (allocator_in_place_rebind b) = None"
    by (simp add: allocator_in_place_rebind_def)
next
  fix v w' assume c: "placed_vector_ctor N k w = Inr (v, w')"
  then show a: "m_place (v_alloc v) = Some k" using placed_vector_ctor_alloc[OF c] by simp
  show "run slack N xs v w' \<noteq> Inl NullDeref" by (rule run_no_deref[OF a])
next
  fix c w' assume c: "placed_vector_copy_ctor N k other w = Inr (c, w')"
  then show a: "m_place (v_alloc c) = Some k" using placed_vector_copy_ctor_alloc[OF c] by simp
  show "run slack N xs c w' \<noteq> Inl NullDeref" by (rule run_no_deref[OF a])
qed

theorem deallocate_needs_place_witness:
  "deallocate allocator_in_place_default (Heap 0) 6 demo_heap_world = Inl NullDeref \<and>
   deallocate (allocator_in_place_rebind \<lparr>m_place = Some 0\<rparr>) (Heap 0) 6 demo_heap_world
     = Inl NullDeref \<and>
   deallocate \<lparr>m_place = Some 0\<rparr> (Heap 0) 6 demo_heap_world \<noteq> Inl NullDeref \<and>
   (\<exists>v w'. placed_vector_ctor 4 0 (blank_world 0 :: nat world) = Inr (v, w') \<and>
      m_place (v_alloc v) = Some 0 \<and>
      run slack_half 4 [ShrinkToFit, PutInPlace] v w' \<noteq> Inl NullDeref)"
proof -
  note D = deallocate_needs_place[of allocator_in_place_default "Heap 0" 6 demo_heap_world,
      THEN conjunct1]
  note R = deallocate_needs_place[of "allocator_in_place_rebind \<lparr>m_place = Some 0\<rparr>" "Heap 0" 6
      demo_heap_world, THEN conjunct1]
  note S = deallocate_needs_place[of "\<lparr>m_place = Some 0\<rparr>" "Heap 0" 6 demo_heap_world,
      THEN conjunct1]
  note C = deallocate_needs_place[where w = "blank_world 0 :: nat world" and N = 4 and k = 0
      and slack = slack_half and xs = "[ShrinkToFit, PutInPlace]", THEN conjunct2, THEN conjunct2, THEN conjunct2, THEN conjunct2,
      THEN conjunct1, rule_format]
  have d: "deallocate allocator_in_place_default (Heap 0) 6 demo_heap_world = Inl NullDeref"
    unfolding D by (simp add: allocator_in_place_default_def allocator_in_place_ctor_def)
  have r: "deallocate (allocator_in_place_rebind \<lparr>m_place = Some 0\<rparr>) (Heap 0) 6 demo_heap_world
     = Inl NullDeref"
    unfolding R by (simp add: allocator_in_place_rebind_def)
  have s: "deallocate \<lparr>m_place = Some 0\<rparr> (Heap 0) 6 demo_heap_world \<noteq> Inl NullDeref"
    unfolding S by simp
  obtain v w' where c: "placed_vector_ctor 4 0 (blank_world 0 :: nat world) = Inr (v, w')"
    using placed_vector_ctor_result[of 4 0 "blank_world 0 :: nat world"] by simp
  from C[OF c] c d r s show ?thesis by simp
qed

section \<open>The steps of \<open>put_in_place\<close>\<close>

lemma grow_from_fallback:
  assumes "well_formed N v w" "v_capacity v \<le> N" "pip_grow N v w = Inr (v1, w1)"
  shows "v_data v1 = Heap (next_block w) \<and> next_block w1 = Suc (next_block w)"
proof -
  have sz: "size_place (places w (self v)) = N" and mp: "m_place (v_alloc v) = Some (self v)"
    using assms(1) by (simp_all add: well_formed_def vec_ok_def)
  have a: "allocate (v_alloc v) (N + 1) w = std_allocate (N + 1) w"
    using sz mp by (simp add: allocate_def)
  have r: "reallocate (N + 1) v w = Inr (v1, w1)"
    using assms(2,3) by (simp add: pip_grow_def reserve_def)
  then obtain p w0 where s: "std_allocate (N + 1) w = Inr (p, w0)" and d: "v_data v1 = p"
    and n: "next_block w1 = next_block w0"
    unfolding reallocate_def a deallocate_def std_deallocate_def Let_def
    by (auto split: sum.splits prod.splits if_splits option.splits addr.splits)
  from std_allocate_result[OF s] d n show ?thesis by simp
qed

lemma reclaim_returns:
  assumes "well_formed N v w" "v_capacity v = v_size v" "v_size v \<le> N" "0 < N"
    "v_data v = Inline (self v) \<longleftrightarrow> v_size v = N"
  shows "\<exists>v' w'. reserve N v w = Inr (v', w')"
proof (cases "v_size v = N")
  case True
  then show ?thesis using assms(2) by (simp add: reserve_def)
next
  case False
  then have g: "allocate (v_alloc v) N w =
     Inr (Inline (self v), w\<lparr>places := (places w)(self v := (places w (self v))\<lparr>is_used := True\<rparr>)\<rparr>)"
    using assms(1,5) allocate_granted[of "v_alloc v" "self v" w N]
    by (simp add: well_formed_def vec_ok_def)
  show ?thesis
    using assms(1,2,3,5) False unfolding reserve_def reallocate_def g
    by (auto simp: Let_def deallocate_def std_deallocate_def well_formed_def vec_ok_def
        split: addr.splits)
qed

lemma reallocate_next_block:
  assumes "vec_ok N v w" "reallocate n v w = Inr (v', w')"
  shows "next_block w' = (if v_data v' = Inline (self v) then next_block w else Suc (next_block w))"
  using assms
  unfolding reallocate_def allocate_def deallocate_def std_allocate_def std_deallocate_def
    vec_ok_def Let_def
  by (auto split: if_splits sum.splits addr.splits prod.splits option.splits)

lemma put_in_place_unfolded:
  assumes "\<not> (is_in_place v w \<and> v_capacity v = N)" "v_size v \<le> N"
  shows "put_in_place N v w =
     (case reserve (N + 1) v w of
        Inl e \<Rightarrow> Inl e
      | Inr (v1, w1) \<Rightarrow>
          (case shrink_to_fit v1 (if v_size v1 \<noteq> N then set_enabled False v1 w1 else w1) of
             Inl e \<Rightarrow> Inl e
           | Inr (v2, w2) \<Rightarrow>
               (case reserve N v2 (set_enabled True v2 w2) of
                  Inl e \<Rightarrow> Inl e
                | Inr (v4, w4) \<Rightarrow> Inr (is_in_place v4 w4, v4, w4))))"
  using assms
  by (auto simp: put_in_place_def pip_reclaim_def pip_enable_def pip_shrink_def pip_disable_def
      pip_grow_def split: sum.splits)

text \<open>
  C6. A call of \<open>put_in_place\<close> on a vector that satisfies its invariant, with a positive
  \<open>N\<close>, at most \<open>N\<close> elements, and past the first early return. The call is, in this
  order, \<open>reserve(N + 1)\<close>, the conditional disabling, \<open>shrink_to_fit\<close>, the enabling and
  \<open>reserve(N)\<close>, and it stops at the first of them that fails. When the call returns, its
  intermediate states are these: after \<open>reserve(N + 1)\<close> the storage is not the inline
  buffer, the capacity exceeds \<open>N\<close>, and a vector whose capacity was at most \<open>N\<close> is on
  the block the fallback allocator has just handed out; the descriptor is enabled going
  into \<open>shrink_to_fit\<close> and coming out of it exactly when the element count equals \<open>N\<close>,
  so it is disabled exactly when the count differs, and only in the enabled case does the
  shrink land on the inline buffer; the descriptor is enabled again before \<open>reserve(N)\<close>,
  which takes no block from the fallback allocator and is the call's result: true, on the
  inline buffer, at capacity \<open>N\<close>. Once \<open>shrink_to_fit\<close> has returned, the call returns.
\<close>

theorem put_in_place_sequencing:
  assumes "well_formed N v w" "v_size v \<le> N" "0 < N"
    "\<not> (is_in_place v w \<and> v_capacity v = N)"
  shows "put_in_place N v w =
     (case reserve (N + 1) v w of
        Inl e \<Rightarrow> Inl e
      | Inr (v1, w1) \<Rightarrow>
          (case shrink_to_fit v1 (if v_size v1 \<noteq> N then set_enabled False v1 w1 else w1) of
             Inl e \<Rightarrow> Inl e
           | Inr (v2, w2) \<Rightarrow>
               (case reserve N v2 (set_enabled True v2 w2) of
                  Inl e \<Rightarrow> Inl e
                | Inr (v4, w4) \<Rightarrow> Inr (is_in_place v4 w4, v4, w4)))) \<and>
   (\<forall>b v' w'. put_in_place N v w = Inr (b, v', w') \<longrightarrow>
      (\<exists>v1 w1 v2 w2.
         reserve (N + 1) v w = Inr (v1, w1) \<and>
         \<not> is_in_place v1 w1 \<and> v_data v1 \<noteq> Inline (self v) \<and> N < v_capacity v1 \<and>
         v_size v1 = v_size v \<and>
         (v_capacity v \<le> N \<longrightarrow>
            v_data v1 = Heap (next_block w) \<and> next_block w1 = Suc (next_block w)) \<and>
         (is_enabled (places (if v_size v1 \<noteq> N then set_enabled False v1 w1 else w1) (self v))
            \<longleftrightarrow> v_size v = N) \<and>
         shrink_to_fit v1 (if v_size v1 \<noteq> N then set_enabled False v1 w1 else w1)
           = Inr (v2, w2) \<and>
         (is_enabled (places w2 (self v)) \<longleftrightarrow> v_size v = N) \<and>
         (v_data v2 = Inline (self v) \<longleftrightarrow> v_size v = N) \<and>
         is_enabled (places (set_enabled True v2 w2) (self v)) \<and>
         reserve N v2 (set_enabled True v2 w2) = Inr (v', w') \<and>
         next_block w' = next_block w2 \<and>
         b \<and> is_in_place v' w' \<and> v_data v' = Inline (self v) \<and> v_capacity v' = N)) \<and>
   (\<forall>v1 w1 v2 w2. reserve (N + 1) v w = Inr (v1, w1) \<longrightarrow>
      shrink_to_fit v1 (if v_size v1 \<noteq> N then set_enabled False v1 w1 else w1) = Inr (v2, w2) \<longrightarrow>
      (\<exists>v' w'. put_in_place N v w = Inr (True, v', w')))"
proof (intro conjI allI impI)
  show "put_in_place N v w =
     (case reserve (N + 1) v w of
        Inl e \<Rightarrow> Inl e
      | Inr (v1, w1) \<Rightarrow>
          (case shrink_to_fit v1 (if v_size v1 \<noteq> N then set_enabled False v1 w1 else w1) of
             Inl e \<Rightarrow> Inl e
           | Inr (v2, w2) \<Rightarrow>
               (case reserve N v2 (set_enabled True v2 w2) of
                  Inl e \<Rightarrow> Inl e
                | Inr (v4, w4) \<Rightarrow> Inr (is_in_place v4 w4, v4, w4))))"
    by (rule put_in_place_unfolded[OF assms(4,2)])
next
  fix b v' w'
  assume p: "put_in_place N v w = Inr (b, v', w')"
  then have rc: "pip_reclaim N v w = Inr (v', w')" and b: "b = is_in_place v' w'"
    using assms(2,4) by (auto simp: put_in_place_def split: sum.splits if_splits)
  then obtain v2 w2 where e: "pip_enable N v w = Inr (v2, set_enabled True v2 w2)"
    and sh: "pip_shrink N v w = Inr (v2, w2)"
    and r: "reserve N v2 (set_enabled True v2 w2) = Inr (v', w')"
    by (auto simp: pip_reclaim_def pip_enable_def split: sum.splits)
  then obtain v1 w1 where g: "pip_grow N v w = Inr (v1, w1)"
    and s: "shrink_to_fit v1 (pip_disable N v1 w1) = Inr (v2, w2)"
    by (auto simp: pip_shrink_def split: sum.splits)
  let ?wd = "if v_size v1 \<noteq> N then set_enabled False v1 w1 else w1"
  have wd: "pip_disable N v1 w1 = ?wd" by (simp add: pip_disable_def)
  note G = pip_grow_ok[OF assms(1) g]
  have ok1: "vec_ok N v1 w1" and en1: "is_enabled (places w1 (self v))"
    using G by (auto simp: well_formed_def)
  have D: "vec_ok N v1 ?wd \<and> (is_enabled (places ?wd (self v)) \<longleftrightarrow> v_size v = N)"
    using set_enabled_ok[OF ok1 refl, of False] ok1 en1 G by simp
  note S = shrink_ok[OF D[THEN conjunct1] s[unfolded wd]]
  note PS = pip_shrink_ok[OF assms(1,2) sh]
  note E = pip_enable_ok[OF assms(1,2) e]
  note R = pip_reclaim_ok[OF assms(1,2,3) rc]
  have ok3: "vec_ok N v2 (set_enabled True v2 w2)" using E by (simp add: well_formed_def)
  have nb: "next_block w' = next_block w2"
  proof (cases "v_capacity v2 < N")
    case True
    then have "reallocate N v2 (set_enabled True v2 w2) = Inr (v', w')"
      using r by (simp add: reserve_def)
    from reallocate_next_block[OF ok3 this] R E show ?thesis by (simp add: set_enabled_def)
  next
    case False
    then show ?thesis using r by (auto simp: reserve_def set_enabled_def)
  qed
  have c1: "reserve (N + 1) v w = Inr (v1, w1)" using g by (simp add: pip_grow_def)
  have c2: "\<not> is_in_place v1 w1 \<and> v_data v1 \<noteq> Inline (self v) \<and> N < v_capacity v1 \<and>
         v_size v1 = v_size v" using G by simp
  have c3: "v_capacity v \<le> N \<longrightarrow>
            v_data v1 = Heap (next_block w) \<and> next_block w1 = Suc (next_block w)"
    using grow_from_fallback[OF assms(1) _ g] by blast
  have c4: "is_enabled (places ?wd (self v)) \<longleftrightarrow> v_size v = N" using D by simp
  have c5: "shrink_to_fit v1 ?wd = Inr (v2, w2)" using s wd by simp
  have c6: "is_enabled (places w2 (self v)) \<longleftrightarrow> v_size v = N" using S D G by simp
  have c7: "v_data v2 = Inline (self v) \<longleftrightarrow> v_size v = N" using PS assms(3) by simp
  have c8: "is_enabled (places (set_enabled True v2 w2) (self v))"
    using E by (auto simp: well_formed_def)
  have c9: "b \<and> is_in_place v' w' \<and> v_data v' = Inline (self v) \<and> v_capacity v' = N"
    using R b by simp
  show "\<exists>v1 w1 v2 w2.
         reserve (N + 1) v w = Inr (v1, w1) \<and>
         \<not> is_in_place v1 w1 \<and> v_data v1 \<noteq> Inline (self v) \<and> N < v_capacity v1 \<and>
         v_size v1 = v_size v \<and>
         (v_capacity v \<le> N \<longrightarrow>
            v_data v1 = Heap (next_block w) \<and> next_block w1 = Suc (next_block w)) \<and>
         (is_enabled (places (if v_size v1 \<noteq> N then set_enabled False v1 w1 else w1) (self v))
            \<longleftrightarrow> v_size v = N) \<and>
         shrink_to_fit v1 (if v_size v1 \<noteq> N then set_enabled False v1 w1 else w1)
           = Inr (v2, w2) \<and>
         (is_enabled (places w2 (self v)) \<longleftrightarrow> v_size v = N) \<and>
         (v_data v2 = Inline (self v) \<longleftrightarrow> v_size v = N) \<and>
         is_enabled (places (set_enabled True v2 w2) (self v)) \<and>
         reserve N v2 (set_enabled True v2 w2) = Inr (v', w') \<and>
         next_block w' = next_block w2 \<and>
         b \<and> is_in_place v' w' \<and> v_data v' = Inline (self v) \<and> v_capacity v' = N"
    using c1 c2 c3 c4 c5 c6 c7 c8 r nb c9 by blast
next
  fix v1 w1 v2 w2
  assume g: "reserve (N + 1) v w = Inr (v1, w1)"
    and s: "shrink_to_fit v1 (if v_size v1 \<noteq> N then set_enabled False v1 w1 else w1) = Inr (v2, w2)"
  have e: "pip_enable N v w = Inr (v2, set_enabled True v2 w2)"
    using g s by (simp add: pip_enable_def pip_shrink_def pip_grow_def pip_disable_def)
  note E = pip_enable_ok[OF assms(1,2) e]
  have "v_data v2 = Inline (self v2) \<longleftrightarrow> v_size v2 = N" using E assms(3) by simp
  from reclaim_returns[OF E[THEN conjunct1] _ _ assms(3) this] E assms(2)
  obtain v4 w4 where r: "reserve N v2 (set_enabled True v2 w2) = Inr (v4, w4)" by auto
  then have rc: "pip_reclaim N v w = Inr (v4, w4)" using e by (simp add: pip_reclaim_def)
  have "is_in_place v4 w4" using pip_reclaim_ok[OF assms(1,2,3) rc] by simp
  then have "put_in_place N v w = Inr (True, v4, w4)"
    using rc assms(2,4) by (auto simp: put_in_place_def)
  then show "\<exists>v' w'. put_in_place N v w = Inr (True, v', w')" by blast
qed

lemma demo_tight_wf: "well_formed 4 demo_tight_vector demo_tight_world"
  by (simp add: well_formed_def vec_ok_def demo_tight_vector_def demo_tight_world_def)

lemma demo_tight_put_in_place: "\<not> isl (put_in_place 4 demo_tight_vector demo_tight_world)"
  by (simp add: op_defs demo_tight_vector_def demo_tight_world_def Let_def)

theorem put_in_place_sequencing_witness:
  "well_formed 4 demo_tight_vector demo_tight_world \<and> v_size demo_tight_vector \<le> 4 \<and>
   \<not> (is_in_place demo_tight_vector demo_tight_world \<and> v_capacity demo_tight_vector = 4) \<and>
   (\<exists>v' w' v1 w1 v2 w2.
      put_in_place 4 demo_tight_vector demo_tight_world = Inr (True, v', w') \<and>
      reserve 5 demo_tight_vector demo_tight_world = Inr (v1, w1) \<and>
      \<not> is_in_place v1 w1 \<and> v_data v1 = Heap 1 \<and>
      \<not> is_enabled (places (set_enabled False v1 w1) 0) \<and>
      shrink_to_fit v1 (set_enabled False v1 w1) = Inr (v2, w2) \<and>
      \<not> is_enabled (places w2 0) \<and> v_data v2 \<noteq> Inline 0 \<and>
      is_enabled (places (set_enabled True v2 w2) 0) \<and>
      reserve 4 v2 (set_enabled True v2 w2) = Inr (v', w') \<and>
      next_block w' = next_block w2 \<and>
      is_in_place v' w' \<and> v_data v' = Inline 0 \<and> v_capacity v' = 4)"
proof -
  have s: "v_size demo_tight_vector \<le> 4" and c: "v_capacity demo_tight_vector \<le> 4"
    and k: "self demo_tight_vector = 0" and z: "v_size demo_tight_vector = 2"
    by (simp_all add: demo_tight_vector_def)
  have n: "\<not> (is_in_place demo_tight_vector demo_tight_world \<and> v_capacity demo_tight_vector = 4)"
    by (simp add: demo_tight_vector_def)
  have nb: "next_block demo_tight_world = 1" by (simp add: demo_tight_world_def)
  have p: "(0::nat) < 4" by simp
  obtain b v' w' where r: "put_in_place 4 demo_tight_vector demo_tight_world = Inr (b, v', w')"
    using demo_tight_put_in_place
    by (cases "put_in_place 4 demo_tight_vector demo_tight_world") auto
  note T = put_in_place_sequencing[OF demo_tight_wf s p n, THEN conjunct2, THEN conjunct1,
      rule_format, OF r]
  then obtain v1 w1 v2 w2 where
    t: "reserve (4 + 1) demo_tight_vector demo_tight_world = Inr (v1, w1)"
      "\<not> is_in_place v1 w1" "v_size v1 = v_size demo_tight_vector"
      "v_capacity demo_tight_vector \<le> 4 \<longrightarrow>
         v_data v1 = Heap (next_block demo_tight_world) \<and>
         next_block w1 = Suc (next_block demo_tight_world)"
      "is_enabled (places (if v_size v1 \<noteq> 4 then set_enabled False v1 w1 else w1)
         (self demo_tight_vector)) \<longleftrightarrow> v_size demo_tight_vector = 4"
      "shrink_to_fit v1 (if v_size v1 \<noteq> 4 then set_enabled False v1 w1 else w1) = Inr (v2, w2)"
      "is_enabled (places w2 (self demo_tight_vector)) \<longleftrightarrow> v_size demo_tight_vector = 4"
      "v_data v2 = Inline (self demo_tight_vector) \<longleftrightarrow> v_size demo_tight_vector = 4"
      "is_enabled (places (set_enabled True v2 w2) (self demo_tight_vector))"
      "reserve 4 v2 (set_enabled True v2 w2) = Inr (v', w')"
      "next_block w' = next_block w2"
      "b" "is_in_place v' w'" "v_data v' = Inline (self demo_tight_vector)" "v_capacity v' = 4"
    by blast
  have z1: "v_size v1 = 2" using t(3) z by simp
  have "put_in_place 4 demo_tight_vector demo_tight_world = Inr (True, v', w') \<and>
      reserve 5 demo_tight_vector demo_tight_world = Inr (v1, w1) \<and>
      \<not> is_in_place v1 w1 \<and> v_data v1 = Heap 1 \<and>
      \<not> is_enabled (places (set_enabled False v1 w1) 0) \<and>
      shrink_to_fit v1 (set_enabled False v1 w1) = Inr (v2, w2) \<and>
      \<not> is_enabled (places w2 0) \<and> v_data v2 \<noteq> Inline 0 \<and>
      is_enabled (places (set_enabled True v2 w2) 0) \<and>
      reserve 4 v2 (set_enabled True v2 w2) = Inr (v', w') \<and>
      next_block w' = next_block w2 \<and>
      is_in_place v' w' \<and> v_data v' = Inline 0 \<and> v_capacity v' = 4"
    using r t c k z z1 nb by simp
  then show ?thesis using demo_tight_wf s n by blast
qed

section \<open>Growing by appends\<close>

lemma appends_ok:
  assumes "vec_ok N v w" "appends slack xs v w = Inr (v', w')"
  shows "vec_ok N v' w' \<and> elements v' w' = elements v w @ xs \<and>
     v_size v' = v_size v + length xs \<and> self v' = self v \<and>
     is_enabled (places w' (self v)) = is_enabled (places w (self v))"
  using assms
proof (induction xs arbitrary: v w)
  case Nil
  then show ?case by simp
next
  case (Cons x xs)
  then obtain v1 w1 where p: "push_back slack x v w = Inr (v1, w1)"
    and a: "appends slack xs v1 w1 = Inr (v', w')"
    by (auto split: sum.splits)
  note P = push_back_ok[OF Cons.prems(1) p]
  from Cons.IH[OF P[THEN conjunct1] a] P show ?case by simp
qed

lemma large_not_in_place:
  assumes "vec_ok N v w" "N < v_size v"
  shows "\<not> is_in_place v w"
proof
  assume "is_in_place v w"
  then have "v_data v = Inline (self v)" using is_in_place_iff[OF assms(1)] by simp
  from inline_cap[OF assms(1) this] assms show False by (simp add: vec_ok_def)
qed

lemma appends_inline:
  assumes "vec_ok N v w" "v_data v = Inline (self v)" "v_capacity v = N"
    "v_size v + length xs \<le> N"
  shows "\<exists>v' w'. appends slack xs v w = Inr (v', w') \<and> vec_ok N v' w' \<and>
     v_data v' = Inline (self v) \<and> self v' = self v \<and> v_capacity v' = N \<and>
     v_size v' = v_size v + length xs \<and> elements v' w' = elements v w @ xs \<and>
     next_block w' = next_block w \<and> live w' = live w \<and> room w' = room w \<and>
     places w' = places w"
  using assms
proof (induction xs arbitrary: v w)
  case Nil
  then show ?case by simp
next
  case (Cons x xs)
  have lt: "v_size v < v_capacity v" using Cons.prems by simp
  obtain v1 w1 where s: "store_back x v w = (v1, w1)" by (cases "store_back x v w")
  then have p: "push_back slack x v w = Inr (v1, w1)" using lt by (simp add: push_back_def)
  note S = store_back_ok[OF Cons.prems(1) lt s]
  have "\<exists>v' w'. appends slack xs v1 w1 = Inr (v', w') \<and> vec_ok N v' w' \<and>
     v_data v' = Inline (self v1) \<and> self v' = self v1 \<and> v_capacity v' = N \<and>
     v_size v' = v_size v1 + length xs \<and> elements v' w' = elements v1 w1 @ xs \<and>
     next_block w' = next_block w1 \<and> live w' = live w1 \<and> room w' = room w1 \<and>
     places w' = places w1"
    using S Cons.prems by (intro Cons.IH) simp_all
  then show ?case using S p by auto
qed

text \<open>
  C7. A default-constructed vector to which more than \<open>N\<close> elements have been appended,
  whatever the growth policy: \<open>is_in_place\<close> is false. The list is arbitrary, so this is
  the state after the \<open>(N+1)\<close>-th append and after every later one.
\<close>

theorem appends_past_capacity:
  assumes "placed_vector_ctor N k w = Inr (v0, w0)"
    "appends slack xs v0 w0 = Inr (v, w')" "N < length xs"
  shows "\<not> is_in_place v w' \<and> elements v w' = xs"
proof -
  note C = placed_vector_ctor_wf[OF assms(1)]
  have ok0: "vec_ok N v0 w0" using C by (simp add: well_formed_def)
  note A = appends_ok[OF ok0 assms(2)]
  have "N < v_size v" using A C assms(3) by simp
  have "elements v0 w0 = []" using C by (simp add: elements_def)
  then show ?thesis using large_not_in_place[OF A[THEN conjunct1] \<open>N < v_size v\<close>] A
    by simp
qed

lemma blank_ctor:
  "\<exists>v0 w0. placed_vector_ctor 4 0 (blank_world r :: nat world) = Inr (v0, w0)"
  using placed_vector_ctor_result[of 4 0 "blank_world r :: nat world"] by simp

lemma blank_five:
  "\<not> isl (case placed_vector_ctor 4 0 (blank_world 100 :: nat world) of
       Inl e \<Rightarrow> Inl e | Inr (v0, w0) \<Rightarrow> appends slack_half [1, 2, 3, 4, 5] v0 w0)"
  by (simp add: placed_vector_ctor_result push_back_def store_back_def op_defs slack_half_def
      blank_world_def Let_def)

theorem appends_past_capacity_witness:
  "\<exists>v0 w0 v w'. placed_vector_ctor 4 0 (blank_world 100 :: nat world) = Inr (v0, w0) \<and>
     appends slack_half [1, 2, 3, 4, 5] v0 w0 = Inr (v, w') \<and> 4 < length [1, 2, 3, 4, 5 :: nat] \<and>
     \<not> is_in_place v w' \<and> elements v w' = [1, 2, 3, 4, 5]"
proof -
  obtain v0 w0 where c: "placed_vector_ctor 4 0 (blank_world 100 :: nat world) = Inr (v0, w0)"
    using blank_ctor by blast
  obtain v w' where a: "appends slack_half [1, 2, 3, 4, 5] v0 w0 = Inr (v, w')"
    using blank_five c by (cases "appends slack_half [1, 2, 3, 4, 5] v0 w0") auto
  have l: "4 < length [1, 2, 3, 4, 5 :: nat]" by simp
  from appends_past_capacity[OF c a l] c a l show ?thesis by blast
qed

text \<open>
  C8. A default-constructed vector and a non-empty list of at most \<open>N\<close> elements: the
  construction and the appends of every prefix of the list return, \<open>is_in_place\<close> is true
  after each, and the bookkeeping of the fallback allocator is what it was before the
  construction: no block was requested from it.
\<close>

theorem appends_within_capacity:
  assumes "xs \<noteq> []" "length xs \<le> N"
  shows "\<exists>v0 w0. placed_vector_ctor N k w = Inr (v0, w0) \<and>
     (\<forall>i \<le> length xs. \<exists>v w'. appends slack (take i xs) v0 w0 = Inr (v, w') \<and>
        is_in_place v w' \<and> elements v w' = take i xs \<and>
        next_block w' = next_block w \<and> live w' = live w \<and> room w' = room w)"
proof -
  have pos: "0 < N" using assms by (cases xs) auto
  let ?v0 = "\<lparr>v_data = Inline k, v_size = 0, v_capacity = N,
           v_alloc = \<lparr>m_place = Some k\<rparr>, self = k\<rparr>"
  let ?w0 = "w\<lparr>places := (places w)(k := \<lparr>is_used = True, is_enabled = True,
                                      p_bytes = Inline k, size_place = N\<rparr>),
            mem := (mem w)(Inline k := [])\<rparr> :: 'a world"
  have c: "placed_vector_ctor N k w = Inr (?v0, ?w0)"
    by (rule placed_vector_ctor_result[OF pos])
  have ok0: "vec_ok N ?v0 ?w0"
    using placed_vector_ctor_wf[OF c] by (simp add: well_formed_def)
  have "\<exists>v w'. appends slack (take i xs) ?v0 ?w0 = Inr (v, w') \<and>
        is_in_place v w' \<and> elements v w' = take i xs \<and>
        next_block w' = next_block w \<and> live w' = live w \<and> room w' = room w"
    if "i \<le> length xs" for i
  proof -
    have "v_size ?v0 + length (take i xs) \<le> N" using that assms(2) by simp
    from appends_inline[OF ok0 _ _ this, of slack]
    obtain v w' where a: "appends slack (take i xs) ?v0 ?w0 = Inr (v, w')"
      and ok: "vec_ok N v w'" and d: "v_data v = Inline (self v)"
      and e: "elements v w' = elements ?v0 ?w0 @ take i xs"
      and h: "next_block w' = next_block ?w0" "live w' = live ?w0" "room w' = room ?w0"
      by auto
    have "is_in_place v w'" using is_in_place_iff[OF ok] d by simp
    then show ?thesis using a e h by (simp add: elements_def)
  qed
  then show ?thesis using c by blast
qed

theorem appends_within_capacity_witness:
  "\<exists>v0 w0 v w'. placed_vector_ctor 4 0 (blank_world 0 :: nat world) = Inr (v0, w0) \<and>
     appends slack_half [1, 2, 3, 4] v0 w0 = Inr (v, w') \<and>
     is_in_place v w' \<and> elements v w' = [1, 2, 3, 4] \<and>
     next_block w' = 0 \<and> live w' = [] \<and> room w' = 0"
proof -
  have n: "[1, 2, 3, 4 :: nat] \<noteq> []" and l: "length [1, 2, 3, 4 :: nat] \<le> 4" by simp_all
  from appends_within_capacity[OF n l, of 0 "blank_world 0" slack_half]
  obtain v0 w0 where c: "placed_vector_ctor 4 0 (blank_world 0 :: nat world) = Inr (v0, w0)"
    and a: "\<forall>i \<le> length [1, 2, 3, 4 :: nat].
        \<exists>v w'. appends slack_half (take i [1, 2, 3, 4]) v0 w0 = Inr (v, w') \<and>
        is_in_place v w' \<and> elements v w' = take i [1, 2, 3, 4] \<and>
        next_block w' = next_block (blank_world 0 :: nat world) \<and>
        live w' = live (blank_world 0 :: nat world) \<and> room w' = room (blank_world 0 :: nat world)"
    by blast
  from a[rule_format, of 4] c show ?thesis by (simp add: blank_world_def)
qed

section \<open>Copy construction\<close>

text \<open>
  Whatever the memory of the new object held, the copy constructor leaves the descriptor
  as \<open>managed_place\<close> constructs it, unused: the member is constructed after the base
  class has allocated.
\<close>

lemma copy_never_in_place:
  assumes "placed_vector_copy_ctor N k other w = Inr (c, w')"
  shows "\<not> is_in_place c w' \<and> places w' k = managed_place_ctor k N \<and>
     m_place (v_alloc c) = Some k"
  using assms
  by (auto simp: placed_vector_copy_ctor_def vector_copy_ctor_def vector_ctor_def
      allocator_in_place_ctor_def is_in_place_def get_allocator_def allocator_in_place_copy_def alloc_is_in_place_def managed_place_ctor_def
      place_manager_ctor_def split: if_splits sum.splits prod.splits)

lemma demo_source_blank:
  "demo_source (blank_world 100) =
     Inr (\<lparr>v_data = Inline 1, v_size = 3, v_capacity = 4, v_alloc = \<lparr>m_place = Some 1\<rparr>, self = 1\<rparr>,
          \<lparr>next_block = 0, live = [], room = 100,
           mem = (\<lambda>_. [])(Inline 1 := [1, 2, 3]),
           places = (\<lambda>_. blank_place)
             (1 := \<lparr>is_used = True, is_enabled = True, p_bytes = Inline 1, size_place = 4\<rparr>)\<rparr>)"
  by (simp add: demo_source_def placed_vector_ctor_result push_back_def store_back_def
      blank_world_def)

text \<open>
  C1. The source \<open>[1, 2, 3]\<close> is in place in slot 1 and is copied into slot 0 of memory
  that was all zero. The copy has the source's elements and its allocator is bound to its
  own descriptor, but it is not in place: its elements are in a block of the fallback
  allocator and \<open>is_in_place\<close> is false.
\<close>

theorem copy_of_in_place_not_in_place:
  "(case copy_scenario (blank_world 100) of
      Inl e \<Rightarrow> False
    | Inr (src, c, w) \<Rightarrow>
        is_in_place src w \<and> elements src w = [1, 2, 3] \<and>
        \<not> is_in_place c w \<and> v_data c = Heap 0 \<and> elements c w = [1, 2, 3] \<and>
        m_place (v_alloc c) = Some 0)"
  by (simp add: copy_scenario_def demo_source_blank placed_vector_copy_ctor_def
      vector_copy_ctor_def allocator_in_place_ctor_def managed_place_ctor_def
      place_manager_ctor_def allocate_def std_allocate_def is_in_place_def get_allocator_def allocator_in_place_copy_def alloc_is_in_place_def
      elements_def blank_place_def)

section \<open>The used flag and the storage\<close>

text \<open>
  For a default-constructed vector the invariant is kept by every operation, so after any
  sequence of them the descriptor is marked used exactly when the storage is the inline
  buffer, and \<open>is_in_place\<close> implies that the storage is the inline buffer.
\<close>

lemma operation_wf:
  assumes "well_formed N v w" "apply_operation slack N x v w = Inr (v', w')"
  shows "well_formed N v' w' \<and> self v' = self v"
proof -
  have ok: "vec_ok N v w" and en: "is_enabled (places w (self v))"
    using assms(1) by (simp_all add: well_formed_def)
  show ?thesis
  proof (cases x)
    case (PushBack y)
    then have "push_back slack y v w = Inr (v', w')" using assms(2) by simp
    from push_back_ok[OF ok this] en show ?thesis by (simp add: well_formed_def)
  next
    case PopBack
    then have "pop_back v w = Inr (v', w')" using assms(2) by simp
    from pop_back_ok[OF ok this] en show ?thesis by (auto simp: well_formed_def)
  next
    case (Reserve n)
    then have "reserve n v w = Inr (v', w')" using assms(2) by simp
    from reserve_ok[OF ok this] en show ?thesis by (simp add: well_formed_def)
  next
    case ShrinkToFit
    then have "shrink_to_fit v w = Inr (v', w')" using assms(2) by simp
    from shrink_ok[OF ok this] en show ?thesis by (simp add: well_formed_def)
  next
    case Clear
    then have "clear v w = Inr (v', w')" using assms(2) by simp
    from clear_ok[OF ok this] en show ?thesis by (auto simp: well_formed_def)
  next
    case PutInPlace
    then obtain b where "put_in_place N v w = Inr (b, v', w')"
      using assms(2) by (auto split: sum.splits)
    from put_in_place_wf[OF assms(1) this] show ?thesis .
  qed
qed

lemma run_wf:
  assumes "well_formed N v w" "run slack N xs v w = Inr (v', w')"
  shows "well_formed N v' w' \<and> self v' = self v"
  using assms
proof (induction xs arbitrary: v w)
  case Nil
  then show ?case by simp
next
  case (Cons x xs)
  then obtain v1 w1 where a: "apply_operation slack N x v w = Inr (v1, w1)"
    and r: "run slack N xs v1 w1 = Inr (v', w')"
    by (auto split: sum.splits)
  note A = operation_wf[OF Cons.prems(1) a]
  from Cons.IH[OF A[THEN conjunct1] r] A show ?case by simp
qed

lemma default_constructed_used_iff_inline:
  assumes "placed_vector_ctor N k w = Inr (v0, w0)" "run slack N xs v0 w0 = Inr (v, w')"
  shows "(is_used (places w' k) \<longleftrightarrow> v_data v = Inline k) \<and>
     p_bytes (places w' k) = Inline k \<and>
     (is_in_place v w' \<longrightarrow> v_data v = p_bytes (places w' k))"
proof -
  note C = placed_vector_ctor_wf[OF assms(1)]
  note R = run_wf[OF C[THEN conjunct1] assms(2)]
  have ok: "vec_ok N v w'" and k: "self v = k" using R C by (simp_all add: well_formed_def)
  show ?thesis using ok k is_in_place_iff[OF ok] by (simp add: vec_ok_def)
qed

text \<open>
  C5. A vector is constructed and destroyed in slot 0, and then the copy of \<open>[1, 2, 3]\<close> is
  constructed in the same slot. The allocator of the copy finds the descriptor the
  destroyed object left (enabled, not used, of size 4) and grants the inline buffer; the
  constructor of \<open>m_place\<close> then marks the descriptor unused. The storage of the copy is
  its inline buffer while \<open>is_used\<close> and \<open>is_in_place\<close> are false.
\<close>

theorem stale_copy_breaks_used_flag:
  "(case copy_into_stale of
      Inl e \<Rightarrow> False
    | Inr (src, c, w) \<Rightarrow>
        v_data c = Inline 0 \<and> p_bytes (places w 0) = Inline 0 \<and>
        \<not> is_used (places w 0) \<and> \<not> is_in_place c w \<and> elements c w = [1, 2, 3])"
  by (simp add: copy_into_stale_def construct_destroy_def placed_vector_dtor_def vector_dtor_def
      deallocate_def copy_scenario_def demo_source_def placed_vector_ctor_result push_back_def
      store_back_def blank_world_def placed_vector_copy_ctor_def
      vector_copy_ctor_def allocator_in_place_ctor_def managed_place_ctor_def
      place_manager_ctor_def allocate_def std_allocate_def is_in_place_def get_allocator_def allocator_in_place_copy_def alloc_is_in_place_def
      elements_def blank_place_def)

section \<open>Reachable states\<close>

text \<open>
  The two concrete states above are what a default-constructed \<open>placed_vector<nat, 4>\<close>
  is after the operations named, as far as its object, its descriptor, its storage block
  and the fallback allocator go.
\<close>

lemma demo_heap_reached:
  "(case placed_vector_ctor 4 0 (blank_world 100 :: nat world) of
      Inl e \<Rightarrow> False
    | Inr (v0, w0) \<Rightarrow>
        (case run slack_half 4
            [PushBack 1, PushBack 2, PushBack 3, PushBack 4, PushBack 5, PopBack, PopBack] v0 w0 of
           Inl e \<Rightarrow> False
         | Inr (v, w) \<Rightarrow>
             v = demo_heap_vector \<and> next_block w = next_block demo_heap_world \<and>
             live w = live demo_heap_world \<and> room w = room demo_heap_world \<and>
             places w = places demo_heap_world \<and>
             mem w (Heap 0) = mem demo_heap_world (Heap 0)))"
  by (simp add: placed_vector_ctor_result push_back_def store_back_def pop_back_def op_defs
      slack_half_def blank_world_def demo_heap_vector_def demo_heap_world_def Let_def fun_eq_iff)

lemma demo_tight_reached:
  "(case placed_vector_ctor 4 0 (blank_world 10 :: nat world) of
      Inl e \<Rightarrow> False
    | Inr (v0, w0) \<Rightarrow>
        (case run slack_half 4
            [Reserve 5, PushBack 7, PushBack 8, ShrinkToFit] v0 w0 of
           Inl e \<Rightarrow> False
         | Inr (v, w) \<Rightarrow>
             v = demo_tight_vector \<and> next_block w = next_block demo_tight_world \<and>
             live w = live demo_tight_world \<and>
             room w = room demo_tight_world \<and> places w = places demo_tight_world \<and>
             mem w (Inline 0) = mem demo_tight_world (Inline 0)))"
  by (simp add: placed_vector_ctor_result push_back_def store_back_def pop_back_def op_defs
      slack_half_def blank_world_def demo_tight_vector_def demo_tight_world_def Let_def fun_eq_iff)

text \<open>
  Every state reached from the default constructor satisfies the invariant, so
  \<open>put_in_place\<close> succeeds on each of them that holds at most \<open>N\<close> elements.
\<close>

lemma put_in_place_after_run:
  assumes "placed_vector_ctor N k w = Inr (v0, w0)" "run slack N xs v0 w0 = Inr (v, w1)"
    "v_size v \<le> N" "0 < N" "put_in_place N v w1 = Inr (b, v', w')"
  shows "b \<and> is_in_place v' w' \<and> elements v' w' = elements v w1"
proof -
  note C = placed_vector_ctor_wf[OF assms(1)]
  note R = run_wf[OF C[THEN conjunct1] assms(2)]
  from put_in_place_ok[OF R[THEN conjunct1] assms(3,4,5)] show ?thesis by simp
qed

end
